theory Spec2Isabelle
  imports Main
begin

section \<open>JavaScript values as the transit tool sees them\<close>

text \<open>
  The tool (src/tools/TransitTool.ts, \<^verbatim>\<open>TransitApiTool.execute\<close>) reads the parsed JSON body
  of the directions response through untyped property accesses and builds one text.
  A JavaScript string is a sequence of UTF-16 code units; \<open>asc\<close> turns an ASCII
  literal into one, and the Korean literals of the source are given by their code units.
\<close>

type_synonym jsstring = "nat list"

definition asc :: "string \<Rightarrow> jsstring" where
  "asc s = map of_char s"

text \<open>
  The values \<^verbatim>\<open>JSON.parse\<close> produces, and \<^verbatim>\<open>undefined\<close>. \<open>JNum n\<close> is the number
  with the integer value \<open>n\<close>; the conversions below follow the runtime for
  \<open>\<bar>n\<bar> < 2 ^ 53\<close> and answer \<open>Unmodelled\<close> beyond (and for a number that is not an
  integer there is no value here at all). An object is its list of own properties;
  a read takes the first entry with the key.
\<close>

datatype jsval =
    JUndefined
  | JNull
  | JBool bool
  | JNum int
  | JStr jsstring
  | JArr "jsval list"
  | JObj "(jsstring \<times> jsval) list"

text \<open>
  What an expression of the source can do: give a value, throw (the \<^verbatim>\<open>try\<close> block of
  \<^verbatim>\<open>execute\<close> catches it), or leave the part of the language modelled here.
\<close>

datatype exn = AxiosError jsstring | TypeError jsstring

fun message :: "exn \<Rightarrow> jsstring" where
  "message (AxiosError m) = m"
| "message (TypeError m) = m"

datatype 'a res = Ok 'a | Throw exn | Unmodelled

fun rbind :: "'a res \<Rightarrow> ('a \<Rightarrow> 'b res) \<Rightarrow> 'b res" where
  "rbind (Ok x) f = f x"
| "rbind (Throw e) f = Throw e"
| "rbind Unmodelled f = Unmodelled"

text \<open>Running the elements of a list in order; the first that does not give a value decides.\<close>

fun rseq :: "'a res list \<Rightarrow> 'a list res" where
  "rseq [] = Ok []"
| "rseq (r # rs) = rbind r (\<lambda>x. rbind (rseq rs) (\<lambda>xs. Ok (x # xs)))"

definition rmap :: "('a \<Rightarrow> 'b res) \<Rightarrow> 'a list \<Rightarrow> 'b list res" where
  "rmap f xs = rseq (map f xs)"

subsection \<open>Truthiness, nullish values, strict equality\<close>

fun truthy :: "jsval \<Rightarrow> bool" where
  "truthy JUndefined = False"
| "truthy JNull = False"
| "truthy (JBool b) = b"
| "truthy (JNum n) = (n \<noteq> 0)"
| "truthy (JStr s) = (s \<noteq> [])"
| "truthy (JArr xs) = True"
| "truthy (JObj kvs) = True"

fun nullish :: "jsval \<Rightarrow> bool" where
  "nullish JUndefined = True"
| "nullish JNull = True"
| "nullish v = False"

fun is_array :: "jsval \<Rightarrow> bool" where
  "is_array (JArr xs) = True"
| "is_array v = False"

text \<open>
  The source compares with \<^verbatim>\<open>===\<close> and \<^verbatim>\<open>!==\<close> against a string, a number or
  \<^verbatim>\<open>undefined\<close> only, where strict equality is the equality of the values.
  \<^verbatim>\<open>a || b\<close> and \<^verbatim>\<open>a ?? b\<close> are used on operands without effects:
\<close>

definition or_else :: "jsval \<Rightarrow> jsval \<Rightarrow> jsval" where
  "or_else a b = (if truthy a then a else b)"

definition nullish_else :: "jsval \<Rightarrow> jsval \<Rightarrow> jsval" where
  "nullish_else a b = (if nullish a then b else a)"

subsection \<open>Numbers to text\<close>

fun digits :: "nat \<Rightarrow> jsstring" where
  "digits n = (if n < 10 then [48 + n] else digits (n div 10) @ [48 + n mod 10])"

declare digits.simps [simp del]

definition safe_int :: "int \<Rightarrow> bool" where
  "safe_int n = (\<bar>n\<bar> < 2 ^ 53)"

definition int_text :: "int \<Rightarrow> jsstring" where
  "int_text n = (if n < 0 then asc ''-'' else []) @ digits (nat \<bar>n\<bar>)"

definition num_to_string :: "int \<Rightarrow> jsstring res" where
  "num_to_string n = (if safe_int n then Ok (int_text n) else Unmodelled)"

subsection \<open>Joining and trimming\<close>

fun js_join :: "jsstring \<Rightarrow> jsstring list \<Rightarrow> jsstring" where
  "js_join sep [] = []"
| "js_join sep [x] = x"
| "js_join sep (x # y # ys) = x @ sep @ js_join sep (y # ys)"

text \<open>
  \<^verbatim>\<open>String.prototype.trim\<close> removes the white space and line terminator code units
  of ECMAScript from both ends.
\<close>

definition is_space :: "nat \<Rightarrow> bool" where
  "is_space c = (c \<in> {0x9, 0xA, 0xB, 0xC, 0xD, 0x20, 0xA0, 0x1680, 0x2028, 0x2029,
                       0x202F, 0x205F, 0x3000, 0xFEFF} \<or> (0x2000 \<le> c \<and> c \<le> 0x200A))"

definition js_trim :: "jsstring \<Rightarrow> jsstring" where
  "js_trim s = rev (dropWhile is_space (rev (dropWhile is_space s)))"

subsection \<open>ToString\<close>

text \<open>
  \<^verbatim>\<open>ToString\<close> as a template literal and \<^verbatim>\<open>Array.prototype.join\<close> apply it.
  An array prints as its elements joined by a comma, \<^verbatim>\<open>null\<close> and \<^verbatim>\<open>undefined\<close>
  elements as the empty string. A parsed object has no callable property of its own:
  it prints through \<^verbatim>\<open>Object.prototype.toString\<close>, unless an own property named
  \<^verbatim>\<open>toString\<close> hides it, and then the conversion throws.
  The messages of the runtime's errors are those of V8.
\<close>

definition no_primitive_msg :: jsstring where
  "no_primitive_msg = asc ''Cannot convert object to primitive value''"

fun to_string :: "jsval \<Rightarrow> jsstring res" where
  "to_string JUndefined = Ok (asc ''undefined'')"
| "to_string JNull = Ok (asc ''null'')"
| "to_string (JBool b) = Ok (if b then asc ''true'' else asc ''false'')"
| "to_string (JNum n) = num_to_string n"
| "to_string (JStr s) = Ok s"
| "to_string (JArr xs) =
     rbind (rseq (map (\<lambda>x. if nullish x then Ok [] else to_string x) xs))
       (\<lambda>ss. Ok (js_join (asc '','') ss))"
| "to_string (JObj kvs) =
     (if asc ''toString'' \<in> fst ` set kvs then Throw (TypeError no_primitive_msg)
      else Ok (asc ''[object Object]''))"

text \<open>\<^verbatim>\<open>xs.join(sep)\<close> on an array of values.\<close>

definition join_vals :: "jsstring \<Rightarrow> jsval list \<Rightarrow> jsstring res" where
  "join_vals sep xs =
     rbind (rseq (map (\<lambda>x. if nullish x then Ok [] else to_string x) xs))
       (\<lambda>ss. Ok (js_join sep ss))"

subsection \<open>Property reads\<close>

text \<open>
  \<open>field v k\<close> is \<^verbatim>\<open>v[k]\<close> for a value that is neither \<^verbatim>\<open>null\<close> nor \<^verbatim>\<open>undefined\<close>,
  for the keys the tool reads (none of them is inherited from a prototype): an own
  property of an object, \<^verbatim>\<open>length\<close> and the index keys of an array and of a string,
  and \<^verbatim>\<open>undefined\<close> otherwise. \<open>get\<close> is the plain read \<^verbatim>\<open>v.k\<close>, which throws on
  \<^verbatim>\<open>null\<close> and \<^verbatim>\<open>undefined\<close>, and \<open>opt\<close> is \<^verbatim>\<open>v?.k\<close>.
\<close>

definition index_keys :: "nat \<Rightarrow> jsstring list" where
  "index_keys n = map digits [0..<n]"

fun field :: "jsval \<Rightarrow> jsstring \<Rightarrow> jsval" where
  "field (JObj kvs) k = (case map_of kvs k of Some v \<Rightarrow> v | None \<Rightarrow> JUndefined)"
| "field (JArr xs) k =
     (if k = asc ''length'' then JNum (int (length xs))
      else case map_of (zip (index_keys (length xs)) xs) k of
             Some v \<Rightarrow> v | None \<Rightarrow> JUndefined)"
| "field (JStr s) k =
     (if k = asc ''length'' then JNum (int (length s))
      else case map_of (zip (index_keys (length s)) s) k of
             Some c \<Rightarrow> JStr [c] | None \<Rightarrow> JUndefined)"
| "field v k = JUndefined"

definition cannot_read_msg :: "jsval \<Rightarrow> jsstring \<Rightarrow> jsstring" where
  "cannot_read_msg v k =
     asc ''Cannot read properties of '' @ (if v = JNull then asc ''null'' else asc ''undefined'')
       @ asc '' (reading '' @ [39] @ k @ [39] @ asc '')''"

definition get :: "jsval \<Rightarrow> jsstring \<Rightarrow> jsval res" where
  "get v k = (if nullish v then Throw (TypeError (cannot_read_msg v k)) else Ok (field v k))"

definition opt :: "jsval \<Rightarrow> jsstring \<Rightarrow> jsval" where
  "opt v k = (if nullish v then JUndefined else field v k)"

subsection \<open>Arithmetic\<close>

text \<open>
  \<^verbatim>\<open>ToNumber\<close> where a value meets \<^verbatim>\<open>/\<close>. Reading the text of a string or of an array as
  a number is not modelled, nor is \<^verbatim>\<open>NaN\<close> (of \<^verbatim>\<open>undefined\<close> and of an object).
\<close>

fun to_number :: "jsval \<Rightarrow> int res" where
  "to_number (JNum n) = (if safe_int n then Ok n else Unmodelled)"
| "to_number (JBool b) = Ok (if b then 1 else 0)"
| "to_number JNull = Ok 0"
| "to_number v = Unmodelled"

fun bits :: "nat \<Rightarrow> nat" where
  "bits n = (if n = 0 then 0 else Suc (bits (n div 2)))"

declare bits.simps [simp del]

text \<open>
  The quotient \<^verbatim>\<open>n / d\<close> of two positive integers is the IEEE 754 double nearest to the
  exact quotient, ties to the even significand: \<open>fl_div n d = (m, k)\<close> stands for the
  double \<open>m / 2 ^ k\<close>, with \<open>2 ^ 52 \<le> m \<le> 2 ^ 53\<close>. It is used for the divisors 60 and
  1000 on numerators below \<open>2 ^ 53\<close>, where the exponent \<open>k\<close> is positive.
\<close>

definition fl_div :: "nat \<Rightarrow> nat \<Rightarrow> nat \<times> nat" where
  "fl_div n d =
     (let k0 = 52 + bits d - bits n;
          k = (if n * 2 ^ k0 < d * 2 ^ 52 then k0 + 1 else k0);
          q = (n * 2 ^ k) div d;
          r = (n * 2 ^ k) mod d;
          m = (if 2 * r < d \<or> (2 * r = d \<and> even q) then q else q + 1)
      in (m, k))"

text \<open>
  \<^verbatim>\<open>Math.round(n / d)\<close>: the integer nearest to the double, the larger one of two
  that are equally near, which is \<open>\<lfloor>x + 1/2\<rfloor>\<close>.
\<close>

definition round_div :: "int \<Rightarrow> nat \<Rightarrow> int" where
  "round_div n d =
     (if n = 0 then 0
      else case fl_div (nat \<bar>n\<bar>) d of
             (m, k) \<Rightarrow> (sgn n * 2 * int m + 2 ^ k) div 2 ^ (k + 1))"

text \<open>
  \<^verbatim>\<open>(n / d).toFixed(1)\<close>: the sign, then the integer \<open>N\<close> for which \<open>N / 10\<close> is nearest
  to the magnitude of the double (the larger of two), written with a point before its
  last digit.
\<close>

definition to_fixed1 :: "int \<Rightarrow> nat \<Rightarrow> jsstring" where
  "to_fixed1 n d =
     (let N = (if n = 0 then 0
               else case fl_div (nat \<bar>n\<bar>) d of
                      (m, k) \<Rightarrow> (20 * m + 2 ^ k) div 2 ^ (k + 1))
      in (if n < 0 then asc ''-'' else []) @ digits (N div 10) @ asc ''.'' @ digits (N mod 10))"

section \<open>The transit tool\<close>

subsection \<open>The literals of the report\<close>

text \<open>
  The fixed texts of \<^verbatim>\<open>execute\<close>, in the order of the source: the not-found sentence
  (line 90), the walk token and the arrow of the route summary (lines 119 and 123),
  the labels of the per-leg lines (lines 133 to 185), the labels of the metrics lines
  (lines 198 to 211) and the prefix of the failure line (line 225).
\<close>

definition not_found_text :: jsstring where
  "not_found_text = [0xACBD, 0xB85C, 0xB97C, 0x20, 0xCC3E, 0xC744, 0x20, 0xC218, 0x20,
     0xC5C6, 0xC2B5, 0xB2C8, 0xB2E4, 0x2E]"

definition walk_token :: jsstring where
  "walk_token = [0xB3C4, 0xBCF4]"

definition arrow :: jsstring where
  "arrow = [0x20, 0x2192, 0x20]"

definition about :: jsstring where
  "about = [0xC57D, 0x20]"

definition minute_unit :: jsstring where
  "minute_unit = [0xBD84]"

definition indent :: jsstring where
  "indent = asc ''    - ''"

definition depart_label :: jsstring where
  "depart_label = indent @ [0xCD9C, 0xBC1C] @ asc '': ''"

definition arrive_label :: jsstring where
  "arrive_label = indent @ [0xB3C4, 0xCC29] @ asc '': ''"

definition step_bullet :: jsstring where
  "step_bullet = asc ''    '' @ [0xB7, 0x20]"

definition board_label :: jsstring where
  "board_label = indent @ [0xC2B9, 0xCC28] @ asc '': ''"

definition alight_label :: jsstring where
  "alight_label = indent @ [0xD558, 0xCC28] @ asc '': ''"

definition lane_route_label :: jsstring where
  "lane_route_label = indent @ [0xB178, 0xC120] @ asc '': ''"

definition lane_type_label :: jsstring where
  "lane_type_label = indent @ [0xB178, 0xC120, 0xD0C0, 0xC785] @ asc '': ''"

definition service_label :: jsstring where
  "service_label = indent @ [0xC6B4, 0xD589, 0xC5EC, 0xBD80] @ asc '': ''"

definition operating :: jsstring where
  "operating = [0xC6B4, 0xD589, 0xC911]"

definition ended :: jsstring where
  "ended = [0xC6B4, 0xD589, 0xC885, 0xB8CC]"

definition stations_label :: jsstring where
  "stations_label = indent @ [0xACBD, 0xC720, 0xC9C0] @ asc '': ''"

definition summary_label :: jsstring where
  "summary_label = [0xACBD, 0xB85C, 0x20, 0xC694, 0xC57D] @ asc '': ''"

definition duration_label :: jsstring where
  "duration_label = [0xC18C, 0xC694, 0x20, 0xC2DC, 0xAC04] @ asc '': '' @ about"

definition transfers_label :: jsstring where
  "transfers_label = [0xD658, 0xC2B9] @ asc '': ''"

definition times_unit :: jsstring where
  "times_unit = [0xD68C]"

definition fare_label :: jsstring where
  "fare_label = [0xC694, 0xAE08] @ asc '': ''"

definition won_unit :: jsstring where
  "won_unit = [0xC6D0]"

definition distance_label :: jsstring where
  "distance_label = [0xCD1D, 0x20, 0xAC70, 0xB9AC] @ asc '': ''"

definition walk_distance_label :: jsstring where
  "walk_distance_label = [0xCD1D, 0x20, 0xB3C4, 0xBCF4, 0x20, 0xAC70, 0xB9AC] @ asc '': ''"

definition walk_time_label :: jsstring where
  "walk_time_label = [0xCD1D, 0x20, 0xB3C4, 0xBCF4, 0x20, 0xC2DC, 0xAC04] @ asc '': '' @ about"

definition detail_heading :: jsstring where
  "detail_heading = asc ''['' @ [0xC0C1, 0xC138, 0x20, 0xACBD, 0xC720, 0xC9C0] @ asc '']''"

definition failure_prefix :: jsstring where
  "failure_prefix = [0xB300, 0xC911, 0xAD50, 0xD1B5, 0x20, 0xACBD, 0xB85C, 0x20, 0xC870,
     0xD68C, 0x20, 0xC2E4, 0xD328] @ asc '': ''"

definition nl :: jsstring where
  "nl = [0xA]"

subsection \<open>Conversions of the metrics (lines 97 to 114)\<close>

text \<open>\<^verbatim>\<open>Math.round(v / 60)\<close> and its text in a template, and \<^verbatim>\<open>(v / 1000).toFixed(1)\<close>.\<close>

definition round_minutes :: "jsval \<Rightarrow> int res" where
  "round_minutes v = rbind (to_number v) (\<lambda>n. Ok (round_div n 60))"

definition minutes_text :: "jsval \<Rightarrow> jsstring res" where
  "minutes_text v = rbind (round_minutes v) num_to_string"

definition km_text :: "jsval \<Rightarrow> jsstring res" where
  "km_text v = rbind (to_number v) (\<lambda>n. Ok (to_fixed1 n 1000))"

text \<open>
  \<^verbatim>\<open>v ? Math.round(v / 60) : undefined\<close> (lines 98 and 110) and
  \<^verbatim>\<open>v ? (v / 1000).toFixed(1) : undefined\<close> (line 104), \<^verbatim>\<open>undefined\<close> as \<open>None\<close>.
\<close>

definition opt_minutes :: "jsval \<Rightarrow> int option res" where
  "opt_minutes v = (if truthy v then rbind (round_minutes v) (\<lambda>m. Ok (Some m)) else Ok None)"

definition opt_km :: "jsval \<Rightarrow> jsstring option res" where
  "opt_km v = (if truthy v then rbind (km_text v) (\<lambda>t. Ok (Some t)) else Ok None)"

subsection \<open>The lines of the metrics block (lines 199 to 210)\<close>

text \<open>\<^verbatim>\<open>m !== undefined ? `label${m}unit\n` : ''\<close> for the two durations.\<close>

definition minutes_line :: "jsstring \<Rightarrow> int option \<Rightarrow> jsstring res" where
  "minutes_line label m =
     (case m of None \<Rightarrow> Ok []
      | Some r \<Rightarrow> rbind (num_to_string r) (\<lambda>t. Ok (label @ t @ minute_unit @ nl)))"

text \<open>\<^verbatim>\<open>v ? `label${v}unit\n` : ''\<close> for the fare and the walk distance.\<close>

definition amount_line :: "jsstring \<Rightarrow> jsstring \<Rightarrow> jsval \<Rightarrow> jsstring res" where
  "amount_line label unit v =
     (if truthy v then rbind (to_string v) (\<lambda>t. Ok (label @ t @ unit @ nl)) else Ok [])"

text \<open>\<^verbatim>\<open>distanceKm ? `label${distanceKm}km\n` : ''\<close>, on the text of \<^verbatim>\<open>toFixed\<close>.\<close>

definition km_line :: "jsstring option \<Rightarrow> jsstring" where
  "km_line d =
     (case d of None \<Rightarrow> []
      | Some t \<Rightarrow> if t \<noteq> [] then distance_label @ t @ asc ''km'' @ nl else [])"

subsection \<open>The legs (lines 116 to 191)\<close>

fun elems :: "jsval \<Rightarrow> jsval list" where
  "elems (JArr xs) = xs"
| "elems v = []"

text \<open>The short label of a leg in the route summary (lines 118 to 122).\<close>

definition leg_label :: "jsval \<Rightarrow> jsval res" where
  "leg_label leg =
     rbind (get leg (asc ''mode'')) (\<lambda>mode.
       if mode = JStr (asc ''WALK'') then Ok (JStr walk_token)
       else if truthy (field leg (asc ''route'')) then Ok (field leg (asc ''route''))
       else Ok (field leg (asc ''mode'')))"

text \<open>\<^verbatim>\<open>p?.name ? p.name : ''\<close> for the start or the end \<open>p\<close> of a leg (lines 130 and 131).\<close>

definition name_of :: "jsval \<Rightarrow> jsval" where
  "name_of p = (if truthy (opt p (asc ''name'')) then field p (asc ''name'') else JStr [])"

text \<open>\<^verbatim>\<open>if (v) desc += `label${v}\n`\<close>: the line, or nothing.\<close>

definition labelled_line :: "jsstring \<Rightarrow> jsval \<Rightarrow> jsstring res" where
  "labelled_line label v =
     (if truthy v then rbind (to_string v) (\<lambda>s. Ok (label @ s @ nl)) else Ok [])"

text \<open>The steps of a walk (lines 139 to 147).\<close>

definition step_line :: "jsval \<Rightarrow> jsstring res" where
  "step_line step =
     rbind (get step (asc ''description'')) (\<lambda>d.
     rbind (to_string (or_else d (JStr []))) (\<lambda>s. Ok (step_bullet @ s)))"

definition walk_steps :: "jsval \<Rightarrow> jsstring res" where
  "walk_steps leg =
     (let steps = field leg (asc ''steps'')
      in if truthy steps \<and> is_array steps
         then rbind (rmap step_line (elems steps)) (\<lambda>ls. Ok (js_join nl ls @ nl))
         else Ok [])"

text \<open>
  The status line of a lane (lines 168 to 171): \<^verbatim>\<open>service !== undefined\<close>, then
  \<^verbatim>\<open>service === 1\<close>.
\<close>

definition service_line :: "jsval \<Rightarrow> jsstring" where
  "service_line service =
     (if service \<noteq> JUndefined
      then service_label @ (if service = JNum 1 then operating else ended) @ nl
      else [])"

text \<open>The lines of the first lane of a transit leg (lines 158 to 172).\<close>

definition lane_block :: "jsval \<Rightarrow> jsstring res" where
  "lane_block leg =
     (let lanes = field leg (asc ''Lane'')
      in if truthy lanes \<and> is_array lanes \<and> 0 < length (elems lanes)
         then
           (let lane = field lanes (asc ''0'')
            in rbind (get lane (asc ''route'')) (\<lambda>r.
               rbind (labelled_line lane_route_label r) (\<lambda>l1.
               rbind (labelled_line lane_type_label (field lane (asc ''type''))) (\<lambda>l2.
                 Ok (l1 @ l2 @ service_line (field lane (asc ''service'')))))))
         else Ok [])"

text \<open>The passed stations of a transit leg (lines 174 to 187).\<close>

definition stations_line :: "jsval list \<Rightarrow> jsstring res" where
  "stations_line names =
     (let stations = filter truthy names
      in if 0 < length stations
         then rbind (join_vals arrow stations) (\<lambda>s. Ok (stations_label @ s @ nl))
         else Ok [])"

definition stations_block :: "jsval \<Rightarrow> jsstring res" where
  "stations_block leg =
     (let psl = field leg (asc ''passStopList'')
      in if truthy psl \<and> truthy (field psl (asc ''stationList''))
              \<and> is_array (field psl (asc ''stationList''))
         then rbind (rmap (\<lambda>station. get station (asc ''stationName''))
                      (elems (field psl (asc ''stationList'')))) stations_line
         else Ok [])"

text \<open>
  The two branches of the detail of a leg, after its number: a walk (lines 133 to 147)
  and a transit leg (lines 150 to 187), with the names \<^verbatim>\<open>startName\<close> and \<^verbatim>\<open>endName\<close>.
\<close>

definition walk_detail :: "jsval \<Rightarrow> jsval \<Rightarrow> jsval \<Rightarrow> jsstring res" where
  "walk_detail leg startName endName =
     rbind (to_string (field leg (asc ''distance''))) (\<lambda>dist.
     rbind (minutes_text (or_else (field leg (asc ''sectionTime'')) (JNum 0))) (\<lambda>mins.
     rbind (labelled_line depart_label startName) (\<lambda>l1.
     rbind (labelled_line arrive_label endName) (\<lambda>l2.
     rbind (walk_steps leg) (\<lambda>l3.
       Ok (walk_token @ asc '' ('' @ dist @ asc ''m, '' @ about @ mins @ minute_unit
             @ asc '')'' @ nl @ l1 @ l2 @ l3))))))"

definition route_suffix :: "jsval \<Rightarrow> jsstring res" where
  "route_suffix route =
     (if truthy route then rbind (to_string route) (\<lambda>r. Ok (asc ''('' @ r @ asc '')''))
      else Ok [])"

definition transit_detail :: "jsval \<Rightarrow> jsval \<Rightarrow> jsval \<Rightarrow> jsstring res" where
  "transit_detail leg startName endName =
     rbind (to_string (field leg (asc ''mode''))) (\<lambda>mode.
     rbind (route_suffix (field leg (asc ''route''))) (\<lambda>route.
     rbind (to_string (field leg (asc ''distance''))) (\<lambda>dist.
     rbind (minutes_text (or_else (field leg (asc ''sectionTime'')) (JNum 0))) (\<lambda>mins.
     rbind (labelled_line board_label startName) (\<lambda>l1.
     rbind (labelled_line alight_label endName) (\<lambda>l2.
     rbind (lane_block leg) (\<lambda>l3.
     rbind (stations_block leg) (\<lambda>l4.
       Ok (mode @ route @ asc '' - '' @ dist @ asc ''m, '' @ about @ mins @ minute_unit
             @ nl @ l1 @ l2 @ l3 @ l4)))))))))"

text \<open>The detail of the leg at index \<open>idx\<close> (lines 127 to 190).\<close>

definition leg_number :: "nat \<Rightarrow> jsstring" where
  "leg_number idx = asc ''['' @ digits (idx + 1) @ asc ''] ''"

definition leg_detail :: "nat \<Rightarrow> jsval \<Rightarrow> jsstring res" where
  "leg_detail idx leg =
     rbind (get leg (asc ''start'')) (\<lambda>start.
     rbind (if field leg (asc ''mode'') = JStr (asc ''WALK'')
            then walk_detail leg (name_of start) (name_of (field leg (asc ''end'')))
            else transit_detail leg (name_of start) (name_of (field leg (asc ''end''))))
       (\<lambda>desc. Ok (js_trim (leg_number idx @ desc))))"

text \<open>
  \<^verbatim>\<open>legs.map(...)\<close> (lines 117 and 126): \<^verbatim>\<open>legs\<close> is \<^verbatim>\<open>best.legs || []\<close>, and a truthy
  value that is not an array has no \<^verbatim>\<open>map\<close> to call.
\<close>

definition legs_of :: "jsval \<Rightarrow> jsval list res" where
  "legs_of best =
     (let legs = or_else (field best (asc ''legs'')) (JArr [])
      in if is_array legs then Ok (elems legs)
         else Throw (TypeError (asc ''legs.map is not a function'')))"

definition route_summary :: "jsval list \<Rightarrow> jsstring res" where
  "route_summary legs = rbind (rmap leg_label legs) (join_vals arrow)"

definition legs_detail :: "jsval list \<Rightarrow> jsstring res" where
  "legs_detail legs =
     rbind (rseq (map (\<lambda>(idx, leg). leg_detail idx leg) (zip [0..<length legs] legs)))
       (\<lambda>ds. Ok (js_join (nl @ nl) ds))"

subsection \<open>The report (lines 84 to 230)\<close>

definition plan_of :: "jsval \<Rightarrow> jsval" where
  "plan_of data = opt (opt data (asc ''metaData'')) (asc ''plan'')"

text \<open>
  The report of the itinerary \<^verbatim>\<open>best\<close> (lines 97 to 214), in the order in which the
  source evaluates: the conversions of the metrics, the route summary, the details of
  the legs, then the template of the text with its conversions to strings.
\<close>

definition itinerary_report :: "jsval \<Rightarrow> jsstring res" where
  "itinerary_report best =
     rbind (get best (asc ''totalTime'')) (\<lambda>totalTime.
     rbind (opt_minutes totalTime) (\<lambda>durationMin.
     rbind (opt_km (field best (asc ''totalDistance''))) (\<lambda>distanceKm.
     rbind (opt_minutes (field best (asc ''totalWalkTime''))) (\<lambda>walkTimeMin.
     rbind (legs_of best) (\<lambda>legs.
     rbind (route_summary legs) (\<lambda>stops.
     rbind (legs_detail legs) (\<lambda>legsDetail.
     rbind (minutes_line duration_label durationMin) (\<lambda>durationLine.
     rbind (to_string (nullish_else (field best (asc ''transferCount'')) (JNum 0)))
       (\<lambda>transfers.
     rbind (amount_line fare_label won_unit
              (nullish_else
                 (opt (opt (field best (asc ''fare'')) (asc ''regular'')) (asc ''totalFare''))
                 (JNum 0))) (\<lambda>fareLine.
     rbind (amount_line walk_distance_label (asc ''m'')
              (nullish_else (field best (asc ''totalWalkDistance'')) (JNum 0)))
       (\<lambda>walkDistanceLine.
     rbind (minutes_line walk_time_label walkTimeMin) (\<lambda>walkTimeLine.
       Ok (summary_label @ stops @ nl
           @ durationLine
           @ transfers_label @ transfers @ times_unit @ nl
           @ fareLine
           @ km_line distanceKm
           @ walkDistanceLine
           @ walkTimeLine
           @ nl @ detail_heading @ nl @ legsDetail)))))))))))))"

text \<open>The \<^verbatim>\<open>try\<close> block after the request (lines 84 to 214), on \<^verbatim>\<open>response.data\<close>.\<close>

definition execute_body :: "jsval \<Rightarrow> jsstring res" where
  "execute_body data =
     (let plan = plan_of data
      in if \<not> truthy plan \<or> \<not> truthy (field plan (asc ''itineraries''))
            \<or> field (field plan (asc ''itineraries'')) (asc ''length'') = JNum 0
         then Ok not_found_text
         else itinerary_report (field (field plan (asc ''itineraries'')) (asc ''0'')))"

text \<open>
  \<^verbatim>\<open>execute\<close>: the request is rejected with an error or resolved with a response
  body, and the \<^verbatim>\<open>catch\<close> block (lines 215 to 229) turns whatever was thrown into the
  failure line. The result is the text of the single content item.
\<close>

datatype upstream = Rejected exn | Resolved jsval

definition failure_text :: "exn \<Rightarrow> jsstring" where
  "failure_text e = failure_prefix @ message e"

fun execute :: "upstream \<Rightarrow> jsstring res" where
  "execute (Rejected e) = Ok (failure_text e)"
| "execute (Resolved data) =
     (case execute_body data of
        Ok t \<Rightarrow> Ok t
      | Throw e \<Rightarrow> Ok (failure_text e)
      | Unmodelled \<Rightarrow> Unmodelled)"

subsection \<open>Lines of a text\<close>

fun is_line_terminator :: "nat \<Rightarrow> bool" where
  "is_line_terminator c = (c = 0xA \<or> c = 0xD \<or> c = 0x2028 \<or> c = 0x2029)"

definition single_line :: "jsstring \<Rightarrow> bool" where
  "single_line s = list_all (\<lambda>c. \<not> is_line_terminator c) s"

subsection \<open>Example responses\<close>

text \<open>Building blocks for concrete responses: an object from ASCII keys, an ASCII string.\<close>

definition obj :: "(string \<times> jsval) list \<Rightarrow> jsval" where
  "obj kvs = JObj (map (\<lambda>(k, v). (asc k, v)) kvs)"

definition str :: "string \<Rightarrow> jsval" where
  "str s = JStr (asc s)"

text \<open>The body \<^verbatim>\<open>{ metaData: { plan: { itineraries: its } } }\<close>.\<close>

definition response_with :: "jsval \<Rightarrow> jsval" where
  "response_with its = obj [(''metaData'', obj [(''plan'', obj [(''itineraries'', its)])])]"

text \<open>
  A trip of two legs: a walk from A to B, then bus 146 from B to C past the stops C1 and
  C2, with one transfer and a fare of 1500, and the report the tool gives for it.
\<close>

definition sample_walk_leg :: jsval where
  "sample_walk_leg = obj [(''mode'', str ''WALK''), (''distance'', JNum 300),
     (''sectionTime'', JNum 240), (''start'', obj [(''name'', str ''A'')]),
     (''end'', obj [(''name'', str ''B'')])]"

definition sample_bus_leg :: jsval where
  "sample_bus_leg = obj [(''mode'', str ''BUS''), (''route'', str ''146''),
     (''distance'', JNum 5000), (''sectionTime'', JNum 900),
     (''start'', obj [(''name'', str ''B'')]), (''end'', obj [(''name'', str ''C'')]),
     (''passStopList'', obj [(''stationList'',
        JArr [obj [(''stationName'', str ''C1'')], obj [(''stationName'', str ''C2'')]])])]"

definition sample_itinerary :: jsval where
  "sample_itinerary = obj [(''totalTime'', JNum 125), (''transferCount'', JNum 1),
     (''totalDistance'', JNum 1050),
     (''fare'', obj [(''regular'', obj [(''totalFare'', JNum 1500)])]),
     (''legs'', JArr [sample_walk_leg, sample_bus_leg])]"

definition sample_report :: jsstring where
  "sample_report =
     summary_label @ walk_token @ arrow @ asc ''146'' @ nl
     @ duration_label @ asc ''2'' @ minute_unit @ nl
     @ transfers_label @ asc ''1'' @ times_unit @ nl
     @ fare_label @ asc ''1500'' @ won_unit @ nl
     @ distance_label @ asc ''1.1km'' @ nl
     @ nl @ detail_heading @ nl
     @ asc ''[1] '' @ walk_token @ asc '' (300m, '' @ about @ asc ''4'' @ minute_unit @ asc '')'' @ nl
     @ depart_label @ asc ''A'' @ nl
     @ arrive_label @ asc ''B''
     @ nl @ nl
     @ asc ''[2] BUS(146) - 5000m, '' @ about @ asc ''15'' @ minute_unit @ nl
     @ board_label @ asc ''B'' @ nl
     @ alight_label @ asc ''C'' @ nl
     @ stations_label @ asc ''C1'' @ arrow @ asc ''C2''"

text \<open>The same itinerary with an empty list of legs, and the report the tool gives for it.\<close>

definition sample_itinerary_no_legs :: jsval where
  "sample_itinerary_no_legs = obj [(''legs'', JArr []), (''totalTime'', JNum 125),
     (''transferCount'', JNum 1), (''totalDistance'', JNum 1050),
     (''fare'', obj [(''regular'', obj [(''totalFare'', JNum 1500)])])]"

definition zero_leg_report :: jsstring where
  "zero_leg_report =
     summary_label @ nl
     @ duration_label @ asc ''2'' @ minute_unit @ nl
     @ transfers_label @ asc ''1'' @ times_unit @ nl
     @ fare_label @ asc ''1500'' @ won_unit @ nl
     @ distance_label @ asc ''1.1km'' @ nl
     @ nl @ detail_heading @ nl"

text \<open>
  Legs for the cases of the per-leg detail: a walk that also carries a route and a lane,
  a walk with a \<^verbatim>\<open>null\<close> step, and bus legs with two lanes, one lane, an empty list
  of lanes, no lane at all, a lane out of service and a lane without a service field.
\<close>

definition walk_leg_with_route :: jsval where
  "walk_leg_with_route = obj [(''route'', str ''146''),
     (''Lane'', JArr [obj [(''route'', str ''146''), (''service'', JNum 1)]]),
     (''mode'', str ''WALK''), (''distance'', JNum 300),
     (''sectionTime'', JNum 240), (''start'', obj [(''name'', str ''A'')]),
     (''end'', obj [(''name'', str ''B'')])]"


definition bus_leg_two_lanes :: jsval where
  "bus_leg_two_lanes = obj [(''mode'', str ''BUS''), (''distance'', JNum 5000),
     (''Lane'', JArr [obj [(''route'', str ''146''), (''service'', JNum 1)],
                      obj [(''route'', str ''360''), (''service'', JNum 0)]])]"

definition bus_leg_one_lane :: jsval where
  "bus_leg_one_lane = obj [(''mode'', str ''BUS''), (''distance'', JNum 5000),
     (''Lane'', JArr [obj [(''route'', str ''146''), (''service'', JNum 1)]])]"

definition bus_leg_no_lane :: jsval where
  "bus_leg_no_lane = obj [(''mode'', str ''BUS''), (''distance'', JNum 5000),
     (''Lane'', JArr [])]"

definition bus_leg_plain :: jsval where
  "bus_leg_plain = obj [(''mode'', str ''BUS''), (''distance'', JNum 5000)]"

definition bus_leg_ended :: jsval where
  "bus_leg_ended = obj [(''mode'', str ''BUS''), (''distance'', JNum 5000),
     (''Lane'', JArr [obj [(''route'', str ''146''), (''service'', JNum 0)]])]"

definition bus_leg_no_service :: jsval where
  "bus_leg_no_service = obj [(''mode'', str ''BUS''), (''distance'', JNum 5000),
     (''Lane'', JArr [obj [(''route'', str ''146'')]])]"

subsection \<open>Responses of the documented shape\<close>

text \<open>
  The response documents numbers for the metrics and for the time of a leg, texts or
  numbers for the mode, the route, the distance and the names, and objects for the
  entries of the lists of steps, lanes and stations. The predicates below say that a
  value has this shape; every field may be missing. A \<open>scalar\<close> is a value that is
  neither an array nor an object; a metric is a number, or is missing or \<^verbatim>\<open>null\<close>.
  The numbers are the integers that a double holds exactly. An entry of a list is
  neither \<^verbatim>\<open>null\<close> nor \<^verbatim>\<open>undefined\<close>. Of the lanes, only the first is
  constrained.
\<close>

fun scalar :: "jsval \<Rightarrow> bool" where
  "scalar (JNum n) = safe_int n"
| "scalar (JArr xs) = False"
| "scalar (JObj kvs) = False"
| "scalar v = True"

fun int_or_absent :: "jsval \<Rightarrow> bool" where
  "int_or_absent JUndefined = True"
| "int_or_absent JNull = True"
| "int_or_absent (JNum n) = safe_int n"
| "int_or_absent v = False"

text \<open>The integer that a metric holds, 0 when the field is missing.\<close>

fun int_of :: "jsval \<Rightarrow> int" where
  "int_of (JNum n) = n"
| "int_of v = 0"

definition step_ok :: "jsval \<Rightarrow> bool" where
  "step_ok step = (\<not> nullish step \<and> scalar (field step (asc ''description'')))"

definition lanes_ok :: "jsval \<Rightarrow> bool" where
  "lanes_ok lanes =
     (case elems lanes of [] \<Rightarrow> True
      | lane # more \<Rightarrow> \<not> nullish lane \<and> scalar (field lane (asc ''route''))
                         \<and> scalar (field lane (asc ''type'')))"

definition station_ok :: "jsval \<Rightarrow> bool" where
  "station_ok station = (\<not> nullish station \<and> scalar (field station (asc ''stationName'')))"

definition leg_ok :: "jsval \<Rightarrow> bool" where
  "leg_ok leg =
     (\<not> nullish leg
      \<and> scalar (field leg (asc ''mode'')) \<and> scalar (field leg (asc ''route''))
      \<and> scalar (field leg (asc ''distance''))
      \<and> int_or_absent (field leg (asc ''sectionTime''))
      \<and> scalar (opt (field leg (asc ''start'')) (asc ''name''))
      \<and> scalar (opt (field leg (asc ''end'')) (asc ''name''))
      \<and> list_all step_ok (elems (field leg (asc ''steps'')))
      \<and> lanes_ok (field leg (asc ''Lane''))
      \<and> list_all station_ok
            (elems (field (field leg (asc ''passStopList'')) (asc ''stationList''))))"

text \<open>\<^verbatim>\<open>best.fare?.regular?.totalFare\<close> (line 108).\<close>

definition fare_of :: "jsval \<Rightarrow> jsval" where
  "fare_of best = opt (opt (field best (asc ''fare'')) (asc ''regular'')) (asc ''totalFare'')"

definition metrics_ok :: "jsval \<Rightarrow> bool" where
  "metrics_ok best =
     (\<not> nullish best
      \<and> int_or_absent (field best (asc ''totalTime''))
      \<and> int_or_absent (field best (asc ''transferCount''))
      \<and> int_or_absent (fare_of best)
      \<and> int_or_absent (field best (asc ''totalDistance''))
      \<and> int_or_absent (field best (asc ''totalWalkDistance''))
      \<and> int_or_absent (field best (asc ''totalWalkTime'')))"

definition legs_ok :: "jsval \<Rightarrow> bool" where
  "legs_ok legs = ((\<not> truthy legs \<or> is_array legs) \<and> list_all leg_ok (elems legs))"

definition itinerary_ok :: "jsval \<Rightarrow> bool" where
  "itinerary_ok best = (metrics_ok best \<and> legs_ok (field best (asc ''legs'')))"

subsection \<open>The metrics block in the words of the specification\<close>

text \<open>
  The specification lists, in this order: the duration if present, the count of
  transfers always, the fare only if nonzero, the total distance if present, the total
  walk distance only if nonzero, the total walk time if present; a count of transfers, a
  fare or a walk distance that the response omits is 0. The function below writes this
  block from the integers that the fields hold, with present meaning not 0; it is not
  taken from the source, and is compared with what \<open>itinerary_report\<close> writes.
\<close>

definition metrics_block_spec :: "jsval \<Rightarrow> jsstring" where
  "metrics_block_spec best =
     (let time = int_of (field best (asc ''totalTime''));
          transfers = int_of (field best (asc ''transferCount''));
          fare = int_of (fare_of best);
          distance = int_of (field best (asc ''totalDistance''));
          walk = int_of (field best (asc ''totalWalkDistance''));
          walkTime = int_of (field best (asc ''totalWalkTime''))
      in (if time \<noteq> 0
          then duration_label @ int_text ((time + 30) div 60) @ minute_unit @ nl else [])
         @ transfers_label @ int_text transfers @ times_unit @ nl
         @ (if fare \<noteq> 0 then fare_label @ int_text fare @ won_unit @ nl else [])
         @ (if distance \<noteq> 0
            then distance_label @ to_fixed1 distance 1000 @ asc ''km'' @ nl else [])
         @ (if walk \<noteq> 0 then walk_distance_label @ int_text walk @ asc ''m'' @ nl else [])
         @ (if walkTime \<noteq> 0
            then walk_time_label @ int_text ((walkTime + 30) div 60) @ minute_unit @ nl
            else []))"

section \<open>Properties\<close>

subsection \<open>Results and property reads\<close>

lemma rbind_eq_Ok: "rbind m f = Ok y \<longleftrightarrow> (\<exists>x. m = Ok x \<and> f x = Ok y)"
  by (cases m) auto

lemma get_eq_Ok: "get v k = Ok x \<longleftrightarrow> \<not> nullish v \<and> x = field v k"
  by (auto simp: get_def)

lemma field_nullish: "nullish v \<Longrightarrow> field v k = JUndefined"
  by (cases v) simp_all

lemma field_index0: "field (JArr (x # xs)) (asc ''0'') = x"
  by (simp add: index_keys_def upt_rec digits.simps asc_def)

lemma field_array_truthy: "field v k = JArr xs \<Longrightarrow> truthy v"
  by (cases v) (simp_all split: if_splits option.splits)

subsection \<open>The arithmetic of the divisions\<close>

lemma bits_le: "n < 2 ^ j \<Longrightarrow> bits n \<le> j"
proof (induction j arbitrary: n)
  case 0
  then show ?case by (simp add: bits.simps)
next
  case (Suc j)
  show ?case
  proof (cases "n = 0")
    case True
    then show ?thesis by (simp add: bits.simps)
  next
    case False
    from Suc.prems have "n div 2 < 2 ^ j" by simp
    then have "bits (n div 2) \<le> j" by (rule Suc.IH)
    with False show ?thesis by (subst bits.simps) simp
  qed
qed

lemma bits_60: "bits 60 = 6"
  by (simp add: bits.simps)


lemma fl_div_exp: "fl_div n d = (m, k) \<Longrightarrow> 52 + bits d - bits n \<le> k"
  by (auto simp: fl_div_def Let_def split: if_splits)

text \<open>The significand is the integer nearest to the scaled quotient.\<close>

lemma fl_div_near:
  assumes "0 < d" and "fl_div n d = (m, k)"
  shows "2 * \<bar>int d * int m - int n * 2 ^ k\<bar> \<le> int d"
proof -
  define X where "X = n * 2 ^ k"
  define q where "q = X div d"
  define r where "r = X mod d"
  have X: "X = q * d + r" by (simp add: q_def r_def)
  have rd: "r < d" using assms(1) by (simp add: r_def)
  have m: "m = (if 2 * r < d \<or> (2 * r = d \<and> even q) then q else q + 1)"
    using assms(2) by (auto simp: fl_div_def Let_def X_def q_def r_def split: if_splits)
  have iX: "int n * 2 ^ k = int q * int d + int r"
    using X by (metis X_def of_nat_add of_nat_mult of_nat_numeral of_nat_power)
  show ?thesis
  proof (cases "2 * r < d \<or> (2 * r = d \<and> even q)")
    case True
    then have "m = q" using m by simp
    then have "int d * int m - int n * 2 ^ k = - int r" using iX by (simp add: algebra_simps)
    moreover have "2 * int r \<le> int d" using True by auto
    ultimately show ?thesis by simp
  next
    case False
    then have "m = q + 1" using m by simp
    then have "int d * int m - int n * 2 ^ k = int d - int r" using iX by (simp add: algebra_simps)
    moreover have "int d \<le> 2 * int r" using False by auto
    moreover have "int r < int d" using rd by simp
    ultimately show ?thesis by simp
  qed
qed

lemma fl_div_signed:
  assumes "n \<noteq> 0" and "safe_int n" and "0 < d" and "bits d = b"
    and "fl_div (nat \<bar>n\<bar>) d = (m, k)"
  shows "b \<le> Suc k \<and> 2 * \<bar>int d * (sgn n * int m) - n * 2 ^ k\<bar> \<le> int d"
proof -
  have "nat \<bar>n\<bar> < 2 ^ 53" using assms(2) by (simp add: safe_int_def nat_less_iff)
  then have "bits (nat \<bar>n\<bar>) \<le> 53" by (rule bits_le)
  moreover have "52 + bits d - bits (nat \<bar>n\<bar>) \<le> k" using assms(5) by (rule fl_div_exp)
  ultimately have k: "b \<le> Suc k" using assms(4) by simp
  have near: "2 * \<bar>int d * int m - int (nat \<bar>n\<bar>) * 2 ^ k\<bar> \<le> int d"
    using assms(3,5) by (rule fl_div_near)
  have "\<bar>int d * (sgn n * int m) - n * 2 ^ k\<bar> = \<bar>int d * int m - int (nat \<bar>n\<bar>) * 2 ^ k\<bar>"
  proof (cases "0 < n")
    case True
    then show ?thesis by simp
  next
    case False
    with assms(1) have neg: "n < 0" by simp
    then have "int d * (sgn n * int m) - n * 2 ^ k = - (int d * int m - int (nat \<bar>n\<bar>) * 2 ^ k)"
      by (simp add: algebra_simps)
    then show ?thesis by simp
  qed
  with near k show ?thesis by simp
qed

text \<open>
  On the integers a double holds exactly, \<^verbatim>\<open>Math.round(n / 60)\<close> is the exact quotient
  rounded to the nearest integer, a half upwards: the rounding of the division never
  crosses a half.
\<close>

lemma round_div_60:
  assumes "safe_int n"
  shows "round_div n 60 = (n + 30) div 60"
proof (cases "n = 0")
  case True
  then show ?thesis by (simp add: round_div_def)
next
  case False
  obtain m k where mk: "fl_div (nat \<bar>n\<bar>) 60 = (m, k)" by (cases "fl_div (nat \<bar>n\<bar>) 60")
  from fl_div_signed [OF False assms _ bits_60 mk]
  have k: "6 \<le> Suc k" and near: "2 * \<bar>60 * (sgn n * int m) - n * 2 ^ k\<bar> \<le> 60" by simp_all
  define M where "M = sgn n * int m"
  define K where "K = (n + 30) div 60"
  define j where "j = k - 1"
  define P where "P = (2::int) ^ j"
  have kj: "k = Suc j" using k by (simp add: j_def)
  have "(2::int) ^ 4 \<le> 2 ^ j" using k by (intro power_increasing) (simp_all add: j_def)
  then have P16: "16 \<le> P" by (simp add: P_def)
  have pow: "(2::int) ^ k = 2 * P" by (simp add: kj P_def)
  have nearP: "\<bar>60 * M - 2 * (n * P)\<bar> \<le> 30" using near by (simp add: M_def pow)
  have K1: "60 * K \<le> n + 30" and K2: "n + 30 \<le> 60 * K + 59"
    unfolding K_def by presburger+
  have "(60 * K) * P \<le> (n + 30) * P" using K1 P16 by (intro mult_right_mono) simp_all
  then have a1: "60 * (K * P) \<le> n * P + 30 * P" by (simp add: algebra_simps)
  have "(n + 30) * P \<le> (60 * K + 59) * P" using K2 P16 by (intro mult_right_mono) simp_all
  then have a2: "n * P + 30 * P \<le> 60 * (K * P) + 59 * P" by (simp add: algebra_simps)
  have lo: "2 * (K * P) \<le> M + P" using nearP a1 by linarith
  have hi: "M + P < 2 * (K * P) + 2 * P" using nearP a2 P16 by linarith
  have "(2 * M + 2 ^ k) div 2 ^ (k + 1) = (2 * (M + P)) div (2 * (2 * P))"
    by (simp add: pow)
  also have "\<dots> = (M + P) div (2 * P)"
    by (rule div_mult_mult1) simp
  also have "\<dots> = K"
  proof (rule int_div_pos_eq)
    show "M + P = 2 * P * K + (M + P - 2 * (K * P))" by (simp add: algebra_simps)
    show "0 \<le> M + P - 2 * (K * P)" using lo by simp
    show "M + P - 2 * (K * P) < 2 * P" using hi by simp
  qed
  finally show ?thesis using False mk by (simp add: round_div_def M_def K_def algebra_simps)
qed

lemma safe_int_round:
  assumes "safe_int n"
  shows "safe_int ((n + 30) div 60)"
proof -
  from assms have lo: "- (2 ^ 53) + 1 \<le> n" and hi: "n \<le> 2 ^ 53 - 1"
    by (simp_all add: safe_int_def abs_less_iff)
  have "(n + 30) div 60 \<le> (2 ^ 53 - 1 + 30) div 60"
    using hi by (intro zdiv_mono1) simp_all
  then have 1: "(n + 30) div 60 < 2 ^ 53" by simp
  have "(- (2 ^ 53) + 1 + 30) div 60 \<le> (n + 30) div 60"
    using lo by (intro zdiv_mono1) simp_all
  then have 2: "- (2 ^ 53) < (n + 30) div 60" by simp
  from 1 2 show ?thesis by (simp add: safe_int_def abs_less_iff)
qed


lemma to_fixed1_nonempty: "to_fixed1 n d \<noteq> []"
  by (simp add: to_fixed1_def Let_def asc_def)

subsection \<open>Evaluating concrete responses\<close>

text \<open>
  Unfolding rules for closed terms. The recursive functions on numbers unfold only
  where the case is decided, so that they stay put on a variable.
\<close>

lemma digits_lt10: "n < 10 \<Longrightarrow> digits n = [48 + n]"
  by (simp add: digits.simps)

lemma digits_ge10: "10 \<le> n \<Longrightarrow> digits n = digits (n div 10) @ [48 + n mod 10]"
  by (subst digits.simps) simp

lemma bits_0: "bits 0 = 0"
  by (simp add: bits.simps)

lemma bits_pos: "0 < n \<Longrightarrow> bits n = Suc (bits (n div 2))"
  by (subst bits.simps) simp

lemmas label_defs = not_found_text_def walk_token_def arrow_def about_def minute_unit_def
  indent_def depart_label_def arrive_label_def step_bullet_def board_label_def alight_label_def
  lane_route_label_def lane_type_label_def service_label_def operating_def ended_def
  stations_label_def summary_label_def duration_label_def transfers_label_def times_unit_def
  fare_label_def won_unit_def distance_label_def walk_distance_label_def walk_time_label_def
  detail_heading_def failure_prefix_def nl_def

lemmas value_defs = obj_def str_def response_with_def asc_def or_else_def nullish_else_def
  opt_def get_def safe_int_def int_text_def num_to_string_def digits_lt10 digits_ge10
  index_keys_def join_vals_def rmap_def js_trim_def is_space_def

lemmas arith_defs = round_div_def to_fixed1_def fl_div_def bits_0 bits_pos Let_def

lemmas tool_defs = round_minutes_def minutes_text_def km_text_def opt_minutes_def opt_km_def
  minutes_line_def amount_line_def km_line_def leg_label_def name_of_def labelled_line_def
  step_line_def walk_steps_def service_line_def lane_block_def stations_line_def
  stations_block_def walk_detail_def route_suffix_def transit_detail_def leg_number_def
  leg_detail_def legs_of_def route_summary_def legs_detail_def plan_of_def
  itinerary_report_def execute_body_def failure_text_def cannot_read_msg_def

lemma to_fixed1_1050: "to_fixed1 1050 1000 = asc ''1.1''"
  by (simp add: arith_defs value_defs)

lemma sample_itinerary_report: "itinerary_report sample_itinerary = Ok sample_report"
  by (simp add: sample_itinerary_def sample_walk_leg_def sample_bus_leg_def sample_report_def
      tool_defs value_defs round_div_60 to_fixed1_1050 label_defs)

lemma bus_leg_one_lane_detail:
  "leg_detail 0 bus_leg_one_lane =
     Ok (asc ''[1] BUS - 5000m, '' @ about @ asc ''0'' @ minute_unit @ nl
           @ lane_route_label @ asc ''146'' @ nl @ service_label @ operating)"
  by (simp add: bus_leg_one_lane_def tool_defs value_defs round_div_60 label_defs)

lemma bus_leg_plain_detail:
  "leg_detail 0 bus_leg_plain = Ok (asc ''[1] BUS - 5000m, '' @ about @ asc ''0'' @ minute_unit)"
  by (simp add: bus_leg_plain_def tool_defs value_defs round_div_60 label_defs)

subsection \<open>What a produced text is made of\<close>

lemma minutes_line_cases:
  assumes "opt_minutes v = Ok dm" and "minutes_line label dm = Ok l"
  shows "if truthy v then \<exists>x. minutes_text v = Ok x \<and> l = label @ x @ minute_unit @ nl
         else l = []"
  using assms
  by (auto simp: opt_minutes_def minutes_line_def minutes_text_def rbind_eq_Ok
      split: if_splits option.splits)

lemma amount_line_cases:
  assumes "amount_line label unit v = Ok l"
  shows "if truthy v then \<exists>x. to_string v = Ok x \<and> l = label @ x @ unit @ nl else l = []"
  using assms by (auto simp: amount_line_def rbind_eq_Ok split: if_splits)

lemma km_line_cases:
  assumes "opt_km v = Ok dk"
  shows "if truthy v then \<exists>x. km_text v = Ok x \<and> km_line dk = distance_label @ x @ asc ''km'' @ nl
         else km_line dk = []"
  using assms
  by (auto simp: opt_km_def km_line_def km_text_def rbind_eq_Ok to_fixed1_nonempty
      split: if_splits)

lemma itinerary_report_OkE:
  assumes "itinerary_report best = Ok t"
  obtains dm dk wm ls stops detail dur tr fa wd wt where
    "\<not> nullish best"
    "opt_minutes (field best (asc ''totalTime'')) = Ok dm"
    "opt_km (field best (asc ''totalDistance'')) = Ok dk"
    "opt_minutes (field best (asc ''totalWalkTime'')) = Ok wm"
    "legs_of best = Ok ls" "route_summary ls = Ok stops" "legs_detail ls = Ok detail"
    "minutes_line duration_label dm = Ok dur"
    "to_string (nullish_else (field best (asc ''transferCount'')) (JNum 0)) = Ok tr"
    "amount_line fare_label won_unit
       (nullish_else (opt (opt (field best (asc ''fare'')) (asc ''regular'')) (asc ''totalFare''))
          (JNum 0)) = Ok fa"
    "amount_line walk_distance_label (asc ''m'')
       (nullish_else (field best (asc ''totalWalkDistance'')) (JNum 0)) = Ok wd"
    "minutes_line walk_time_label wm = Ok wt"
    "t = summary_label @ stops @ nl @ dur @ transfers_label @ tr @ times_unit @ nl @ fa
           @ km_line dk @ wd @ wt @ nl @ detail_heading @ nl @ detail"
  using assms unfolding itinerary_report_def rbind_eq_Ok get_eq_Ok by blast

lemma opt_minutes_falsy: "\<not> truthy v \<Longrightarrow> opt_minutes v = Ok None"
  by (simp add: opt_minutes_def)

lemma opt_km_falsy: "\<not> truthy v \<Longrightarrow> opt_km v = Ok None"
  by (simp add: opt_km_def)

lemma leg_detail_OkE:
  assumes "leg_detail idx leg = Ok d"
  obtains desc where "\<not> nullish leg" "d = js_trim (leg_number idx @ desc)"
    "(if field leg (asc ''mode'') = JStr (asc ''WALK'')
      then walk_detail leg (name_of (field leg (asc ''start''))) (name_of (field leg (asc ''end'')))
      else transit_detail leg (name_of (field leg (asc ''start'')))
             (name_of (field leg (asc ''end'')))) = Ok desc"
  using assms unfolding leg_detail_def rbind_eq_Ok get_eq_Ok by blast


lemma transit_detail_OkE:
  assumes "transit_detail leg s e = Ok desc"
  obtains head l3 l4 where "lane_block leg = Ok l3" "stations_block leg = Ok l4"
    "desc = head @ l3 @ l4" "\<exists>c \<in> set head. \<not> is_space c"
proof -
  from assms obtain mode route dist mins l1 l2 l3 l4 where
    l3: "lane_block leg = Ok l3" and l4: "stations_block leg = Ok l4"
    and desc: "desc = mode @ route @ asc '' - '' @ dist @ asc ''m, '' @ about @ mins
                 @ minute_unit @ nl @ l1 @ l2 @ l3 @ l4"
    unfolding transit_detail_def rbind_eq_Ok by blast
  define head where "head = mode @ route @ asc '' - '' @ dist @ asc ''m, '' @ about @ mins
                 @ minute_unit @ nl @ l1 @ l2"
  have "desc = head @ l3 @ l4" by (simp add: desc head_def)
  moreover have "\<exists>c \<in> set head. \<not> is_space c"
    by (rule bexI [of _ 45]) (simp_all add: head_def asc_def is_space_def)
  ultimately show ?thesis using l3 l4 that by blast
qed

lemma lane_block_OkE:
  assumes "lane_block leg = Ok t" and "field leg (asc ''Lane'') = JArr (lane # more)"
  obtains l1 l2 where "\<not> nullish lane"
    "labelled_line lane_route_label (field lane (asc ''route'')) = Ok l1"
    "labelled_line lane_type_label (field lane (asc ''type'')) = Ok l2"
    "t = l1 @ l2 @ service_line (field lane (asc ''service''))"
proof -
  from assms have "rbind (get lane (asc ''route'')) (\<lambda>r.
               rbind (labelled_line lane_route_label r) (\<lambda>l1.
               rbind (labelled_line lane_type_label (field lane (asc ''type''))) (\<lambda>l2.
                 Ok (l1 @ l2 @ service_line (field lane (asc ''service'')))))) = Ok t"
    by (simp add: lane_block_def field_index0 del: field.simps)
  then show ?thesis
    unfolding rbind_eq_Ok get_eq_Ok using that by blast
qed



text \<open>A list of itineraries that holds an entry sends the first entry to the report.\<close>

lemma execute_body_first:
  assumes "opt (plan_of data) (asc ''itineraries'') = JArr (best # more)"
  shows "execute_body data = itinerary_report best"
proof -
  from assms have nn: "\<not> nullish (plan_of data)" by (auto simp: opt_def split: if_splits)
  with assms have its: "field (plan_of data) (asc ''itineraries'') = JArr (best # more)"
    by (simp add: opt_def)
  then have "truthy (plan_of data)" by (rule field_array_truthy)
  moreover have "field (JArr (best # more)) (asc ''length'') \<noteq> JNum 0" by simp
  ultimately show ?thesis
    by (simp add: execute_body_def Let_def its field_index0 del: field.simps)
qed

lemma summary_not_not_found: "summary_label @ rest \<noteq> not_found_text"
  by (simp add: summary_label_def not_found_text_def asc_def)

subsection \<open>The report is never the not-found sentence\<close>

lemma failure_not_not_found: "failure_prefix @ rest \<noteq> not_found_text"
  by (simp add: failure_prefix_def not_found_text_def)

lemma itinerary_report_not_not_found: "itinerary_report best \<noteq> Ok not_found_text"
proof
  assume "itinerary_report best = Ok not_found_text"
  then obtain rest where "not_found_text = summary_label @ rest"
    by (rule itinerary_report_OkE) simp
  then show False using summary_not_not_found [of rest] by simp
qed

lemma formatter_never_not_found:
  assumes "execute_body data = itinerary_report best"
  shows "execute (Resolved data) \<noteq> Ok not_found_text"
proof (cases "itinerary_report best")
  case (Ok t)
  then show ?thesis using assms itinerary_report_not_not_found [of best] by auto
next
  case (Throw e)
  then show ?thesis using assms failure_not_not_found by (simp add: failure_text_def)
next
  case Unmodelled
  then show ?thesis using assms by simp
qed

subsection \<open>Produced texts, field by field\<close>

text \<open>The metrics of a produced report, line by line.\<close>

lemma metrics_block_shape:
  assumes "itinerary_report best = Ok t"
  shows "\<exists>stops dur tr fa di wd wt detail.
      t = summary_label @ stops @ nl
            @ dur @ (transfers_label @ tr @ times_unit @ nl) @ fa @ di @ wd @ wt
            @ nl @ detail_heading @ nl @ detail
    \<and> (if truthy (field best (asc ''totalTime''))
         then \<exists>x. minutes_text (field best (asc ''totalTime'')) = Ok x
                   \<and> dur = duration_label @ x @ minute_unit @ nl
         else dur = [])
    \<and> to_string (nullish_else (field best (asc ''transferCount'')) (JNum 0)) = Ok tr
    \<and> (field best (asc ''transferCount'') = JUndefined \<longrightarrow> tr = asc ''0'')
    \<and> (let fare = nullish_else
                      (opt (opt (field best (asc ''fare'')) (asc ''regular'')) (asc ''totalFare''))
                      (JNum 0)
        in if truthy fare
           then \<exists>x. to_string fare = Ok x \<and> fa = fare_label @ x @ won_unit @ nl
           else fa = [])
    \<and> (field best (asc ''fare'') = JUndefined \<longrightarrow> fa = [])
    \<and> (if truthy (field best (asc ''totalDistance''))
         then \<exists>x. km_text (field best (asc ''totalDistance'')) = Ok x
                   \<and> di = distance_label @ x @ asc ''km'' @ nl
         else di = [])
    \<and> (let walk = nullish_else (field best (asc ''totalWalkDistance'')) (JNum 0)
        in if truthy walk
           then \<exists>x. to_string walk = Ok x \<and> wd = walk_distance_label @ x @ asc ''m'' @ nl
           else wd = [])
    \<and> (field best (asc ''totalWalkDistance'') = JUndefined \<longrightarrow> wd = [])
    \<and> (if truthy (field best (asc ''totalWalkTime''))
         then \<exists>x. minutes_text (field best (asc ''totalWalkTime'')) = Ok x
                   \<and> wt = walk_time_label @ x @ minute_unit @ nl
         else wt = [])"
proof -
  from assms obtain dm dk wm stops detail dur tr fa wd wt where
    dm: "opt_minutes (field best (asc ''totalTime'')) = Ok dm"
    and dk: "opt_km (field best (asc ''totalDistance'')) = Ok dk"
    and wm: "opt_minutes (field best (asc ''totalWalkTime'')) = Ok wm"
    and dur: "minutes_line duration_label dm = Ok dur"
    and tr: "to_string (nullish_else (field best (asc ''transferCount'')) (JNum 0)) = Ok tr"
    and fa: "amount_line fare_label won_unit
       (nullish_else (opt (opt (field best (asc ''fare'')) (asc ''regular'')) (asc ''totalFare''))
          (JNum 0)) = Ok fa"
    and wd: "amount_line walk_distance_label (asc ''m'')
       (nullish_else (field best (asc ''totalWalkDistance'')) (JNum 0)) = Ok wd"
    and wt: "minutes_line walk_time_label wm = Ok wt"
    and t: "t = summary_label @ stops @ nl @ dur @ transfers_label @ tr @ times_unit @ nl @ fa
           @ km_line dk @ wd @ wt @ nl @ detail_heading @ nl @ detail"
    by (rule itinerary_report_OkE)
  note c1 = minutes_line_cases [OF dm dur]
  note c3 = amount_line_cases [OF fa]
  note c4 = km_line_cases [OF dk]
  note c5 = amount_line_cases [OF wd]
  note c6 = minutes_line_cases [OF wm wt]
  have d1: "field best (asc ''transferCount'') = JUndefined \<longrightarrow> tr = asc ''0''"
    using tr by (auto simp: nullish_else_def num_to_string_def safe_int_def int_text_def
        digits_lt10 asc_def)
  have d2: "field best (asc ''fare'') = JUndefined \<longrightarrow> fa = []"
    using fa by (auto simp: nullish_else_def opt_def amount_line_def)
  have d3: "field best (asc ''totalWalkDistance'') = JUndefined \<longrightarrow> wd = []"
    using wd by (auto simp: nullish_else_def amount_line_def)
  have t': "t = summary_label @ stops @ nl
            @ dur @ (transfers_label @ tr @ times_unit @ nl) @ fa @ km_line dk @ wd @ wt
            @ nl @ detail_heading @ nl @ detail"
    using t by simp
  show ?thesis
    unfolding Let_def
    apply (intro exI conjI)
             apply (rule t')
            apply (rule c1)
           apply (rule tr)
          apply (rule d1)
         apply (rule c3)
        apply (rule d2)
       apply (rule c4)
      apply (rule c5)
     apply (rule d3)
    apply (rule c6)
    done
qed

text \<open>The lines of the first lane in a produced detail.\<close>

lemma lane_status_shape:
  assumes "field leg (asc ''mode'') \<noteq> JStr (asc ''WALK'')"
    and "field leg (asc ''Lane'') = JArr (lane # more)"
    and "leg_detail idx leg = Ok d"
  shows "\<exists>head l1 l2 status l4.
      d = js_trim (leg_number idx @ head @ l1 @ l2 @ status @ l4)
    \<and> lane_block leg = Ok (l1 @ l2 @ status)
    \<and> labelled_line lane_route_label (field lane (asc ''route'')) = Ok l1
    \<and> labelled_line lane_type_label (field lane (asc ''type'')) = Ok l2
    \<and> stations_block leg = Ok l4
    \<and> (field lane (asc ''service'') = JNum 1 \<longrightarrow> status = service_label @ operating @ nl)
    \<and> (field lane (asc ''service'') = JNum 0 \<longrightarrow> status = service_label @ ended @ nl)
    \<and> (field lane (asc ''service'') = JUndefined \<longrightarrow> status = [])"
proof -
  from assms(3) obtain desc where d: "d = js_trim (leg_number idx @ desc)"
    and "(if field leg (asc ''mode'') = JStr (asc ''WALK'')
      then walk_detail leg (name_of (field leg (asc ''start''))) (name_of (field leg (asc ''end'')))
      else transit_detail leg (name_of (field leg (asc ''start'')))
             (name_of (field leg (asc ''end'')))) = Ok desc"
    by (rule leg_detail_OkE)
  with assms(1) have "transit_detail leg (name_of (field leg (asc ''start'')))
             (name_of (field leg (asc ''end''))) = Ok desc" by simp
  then obtain head l3 l4 where l3: "lane_block leg = Ok l3"
    and l4: "stations_block leg = Ok l4" and desc: "desc = head @ l3 @ l4"
    by (rule transit_detail_OkE)
  from l3 assms(2) obtain l1 l2 where
    l1: "labelled_line lane_route_label (field lane (asc ''route'')) = Ok l1"
    and l2: "labelled_line lane_type_label (field lane (asc ''type'')) = Ok l2"
    and t: "l3 = l1 @ l2 @ service_line (field lane (asc ''service''))"
    by (rule lane_block_OkE)
  define status where "status = service_line (field lane (asc ''service''))"
  have s1: "field lane (asc ''service'') = JNum 1 \<longrightarrow> status = service_label @ operating @ nl"
    and s0: "field lane (asc ''service'') = JNum 0 \<longrightarrow> status = service_label @ ended @ nl"
    and su: "field lane (asc ''service'') = JUndefined \<longrightarrow> status = []"
    by (simp_all add: status_def service_line_def)
  have d': "d = js_trim (leg_number idx @ head @ l1 @ l2 @ status @ l4)"
    by (simp add: d desc t status_def)
  have lb: "lane_block leg = Ok (l1 @ l2 @ status)"
    by (simp add: l3 t status_def)
  show ?thesis
    apply (intro exI conjI)
           apply (rule d')
          apply (rule lb)
         apply (rule l1)
        apply (rule l2)
       apply (rule l4)
      apply (rule s1)
     apply (rule s0)
    apply (rule su)
    done
qed

text \<open>The lanes after the first one are not read; an empty list is no lane.\<close>

lemma later_lanes_ignored:
  assumes "\<forall>k. k \<noteq> asc ''Lane'' \<longrightarrow> field leg' k = field leg k"
  shows "(field leg (asc ''Lane'') = JArr (lane # more) \<and> field leg' (asc ''Lane'') = JArr [lane]
            \<longrightarrow> lane_block leg = lane_block leg' \<and> leg_detail idx leg = leg_detail idx leg')
       \<and> (field leg (asc ''Lane'') = JArr [] \<and> field leg' (asc ''Lane'') = JUndefined
            \<and> \<not> nullish leg'
            \<longrightarrow> lane_block leg = Ok [] \<and> leg_detail idx leg = leg_detail idx leg')"
proof (intro conjI impI; elim conjE)
  have same: "field leg' k = field leg k" if "k \<noteq> asc ''Lane''" for k
    using assms that by simp
  have rest: "leg_detail idx leg = leg_detail idx leg'"
    if "lane_block leg = lane_block leg'" "\<not> nullish leg" "\<not> nullish leg'"
    using that
    by (simp add: leg_detail_def walk_detail_def transit_detail_def walk_steps_def
        stations_block_def get_def same asc_def)
  {
    assume a: "field leg (asc ''Lane'') = JArr (lane # more)"
      and b: "field leg' (asc ''Lane'') = JArr [lane]"
    have nn: "\<not> nullish leg" "\<not> nullish leg'" using a b by (auto simp: field_nullish)
    show lb: "lane_block leg = lane_block leg'"
      by (simp add: lane_block_def a b field_index0 del: field.simps)
    show "leg_detail idx leg = leg_detail idx leg'" by (rule rest [OF lb nn])
  }
  {
    assume a: "field leg (asc ''Lane'') = JArr []"
      and b: "field leg' (asc ''Lane'') = JUndefined" and c: "\<not> nullish leg'"
    have nn: "\<not> nullish leg" using a by (auto simp: field_nullish)
    show "lane_block leg = Ok []" by (simp add: lane_block_def a)
    moreover have "lane_block leg' = Ok []" by (simp add: lane_block_def b)
    ultimately have lb: "lane_block leg = lane_block leg'" by simp
    show "leg_detail idx leg = leg_detail idx leg'" by (rule rest [OF lb nn c])
  }
qed

subsection \<open>Responses of the documented shape are formatted\<close>

text \<open>
  On values of the documented shape every conversion of the tool gives a text: nothing
  throws, and the text is the one written out below.
\<close>

lemma rseq_ok:
  assumes "\<forall>r \<in> set rs. \<exists>x. r = Ok x"
  shows "\<exists>xs. rseq rs = Ok xs"
  using assms by (induction rs) (auto simp: rbind_eq_Ok)

lemma rmap_ok:
  assumes "\<forall>x \<in> set xs. \<exists>y. f x = Ok y"
  shows "\<exists>ys. rmap f xs = Ok ys"
  unfolding rmap_def using assms by (intro rseq_ok) auto

lemma scalar_to_string: "scalar v \<Longrightarrow> \<exists>s. to_string v = Ok s"
  by (cases v) (simp_all add: num_to_string_def)

lemma join_vals_ok:
  assumes "\<forall>x \<in> set xs. scalar x"
  shows "\<exists>s. join_vals sep xs = Ok s"
proof -
  have "\<exists>ss. rseq (map (\<lambda>x. if nullish x then Ok [] else to_string x) xs) = Ok ss"
    using assms by (intro rseq_ok) (auto dest: scalar_to_string)
  then show ?thesis by (auto simp: join_vals_def)
qed

lemma labelled_line_scalar:
  assumes "scalar v"
  shows "\<exists>s. to_string v = Ok s
             \<and> labelled_line label v = Ok (if truthy v then label @ s @ nl else [])"
  using scalar_to_string [OF assms] by (auto simp: labelled_line_def)

lemma name_of_scalar: "scalar (opt p (asc ''name'')) \<Longrightarrow> scalar (name_of p)"
  by (cases "nullish p") (simp_all add: name_of_def opt_def)

lemma int_text_round_ok:
  "safe_int n \<Longrightarrow> num_to_string ((n + 30) div 60) = Ok (int_text ((n + 30) div 60))"
  by (simp add: num_to_string_def safe_int_round)

lemma safe_int_0: "safe_int 0"
  by (simp add: safe_int_def)

lemma int_or_absent_safe: "int_or_absent v \<Longrightarrow> safe_int (int_of v)"
  by (cases v) (simp_all add: safe_int_0)

lemma int_or_absent_truthy: "int_or_absent v \<Longrightarrow> truthy v \<longleftrightarrow> int_of v \<noteq> 0"
  by (cases v) simp_all

lemma section_minutes:
  assumes "int_or_absent v"
  shows "minutes_text (or_else v (JNum 0)) = Ok (int_text ((int_of v + 30) div 60))"
  using assms
  by (cases v)
    (simp_all add: or_else_def minutes_text_def round_minutes_def round_div_60 safe_int_0
      int_text_round_ok num_to_string_def safe_int_round)

lemma step_line_ok: "step_ok step \<Longrightarrow> \<exists>l. step_line step = Ok l"
  unfolding step_ok_def step_line_def
  by (cases "field step (asc ''description'')")
    (auto simp: get_def or_else_def num_to_string_def)

lemma walk_steps_ok:
  assumes "list_all step_ok (elems (field leg (asc ''steps'')))"
  shows "\<exists>l. walk_steps leg = Ok l"
proof -
  have "\<exists>ls. rmap step_line (elems (field leg (asc ''steps''))) = Ok ls"
    using assms by (intro rmap_ok) (auto simp: list_all_iff dest: step_line_ok)
  then show ?thesis by (auto simp: walk_steps_def Let_def)
qed

lemma lane_block_first:
  assumes "field leg (asc ''Lane'') = JArr (lane # more)"
    and "\<not> nullish lane"
    and "scalar (field lane (asc ''route''))" and "scalar (field lane (asc ''type''))"
  shows "\<exists>r t. to_string (field lane (asc ''route'')) = Ok r
             \<and> to_string (field lane (asc ''type'')) = Ok t
             \<and> lane_block leg =
                 Ok ((if truthy (field lane (asc ''route'')) then lane_route_label @ r @ nl else [])
                     @ (if truthy (field lane (asc ''type'')) then lane_type_label @ t @ nl else [])
                     @ (if field lane (asc ''service'') \<noteq> JUndefined
                        then service_label
                             @ (if field lane (asc ''service'') = JNum 1 then operating else ended)
                             @ nl
                        else []))"
proof -
  from labelled_line_scalar [OF assms(3), of lane_route_label] obtain r where
    r: "to_string (field lane (asc ''route'')) = Ok r"
    "labelled_line lane_route_label (field lane (asc ''route''))
       = Ok (if truthy (field lane (asc ''route'')) then lane_route_label @ r @ nl else [])"
    by blast
  from labelled_line_scalar [OF assms(4), of lane_type_label] obtain t where
    t: "to_string (field lane (asc ''type'')) = Ok t"
    "labelled_line lane_type_label (field lane (asc ''type''))
       = Ok (if truthy (field lane (asc ''type'')) then lane_type_label @ t @ nl else [])"
    by blast
  have "lane_block leg =
                 Ok ((if truthy (field lane (asc ''route'')) then lane_route_label @ r @ nl else [])
                     @ (if truthy (field lane (asc ''type'')) then lane_type_label @ t @ nl else [])
                     @ (if field lane (asc ''service'') \<noteq> JUndefined
                        then service_label
                             @ (if field lane (asc ''service'') = JNum 1 then operating else ended)
                             @ nl
                        else []))"
    using assms(2)
    by (simp add: lane_block_def assms(1) field_index0 get_def r(2) t(2) service_line_def
        del: field.simps)
  with r(1) t(1) show ?thesis by blast
qed

lemma lane_block_none: "elems (field leg (asc ''Lane'')) = [] \<Longrightarrow> lane_block leg = Ok []"
  by (simp add: lane_block_def)

lemma lane_block_ok:
  assumes "lanes_ok (field leg (asc ''Lane''))"
  shows "\<exists>l. lane_block leg = Ok l"
proof (cases "elems (field leg (asc ''Lane''))")
  case Nil
  then show ?thesis by (simp add: lane_block_none)
next
  case (Cons lane more)
  then have l: "field leg (asc ''Lane'') = JArr (lane # more)"
    by (cases "field leg (asc ''Lane'')") simp_all
  from assms Cons have "\<not> nullish lane" "scalar (field lane (asc ''route''))"
    "scalar (field lane (asc ''type''))"
    by (simp_all add: lanes_ok_def)
  from lane_block_first [OF l this] show ?thesis by blast
qed

lemma stations_line_ok:
  assumes "\<forall>x \<in> set names. scalar x"
  shows "\<exists>l. stations_line names = Ok l"
proof -
  have "\<exists>s. join_vals arrow (filter truthy names) = Ok s"
    using assms by (intro join_vals_ok) auto
  then show ?thesis by (auto simp: stations_line_def Let_def)
qed

lemma rmap_get_ok:
  assumes "\<forall>x \<in> set xs. \<not> nullish x"
  shows "rmap (\<lambda>x. get x k) xs = Ok (map (\<lambda>x. field x k) xs)"
  using assms by (induction xs) (simp_all add: rmap_def get_def)

lemma stations_block_ok:
  assumes "list_all station_ok
            (elems (field (field leg (asc ''passStopList'')) (asc ''stationList'')))"
  shows "\<exists>l. stations_block leg = Ok l"
proof -
  let ?xs = "elems (field (field leg (asc ''passStopList'')) (asc ''stationList''))"
  have g: "rmap (\<lambda>station. get station (asc ''stationName'')) ?xs
             = Ok (map (\<lambda>x. field x (asc ''stationName'')) ?xs)"
    using assms by (intro rmap_get_ok) (auto simp: list_all_iff station_ok_def)
  have "\<exists>l. stations_line (map (\<lambda>x. field x (asc ''stationName'')) ?xs) = Ok l"
    using assms by (intro stations_line_ok) (auto simp: list_all_iff station_ok_def)
  then show ?thesis by (auto simp: stations_block_def Let_def g)
qed

lemma route_suffix_ok: "scalar r \<Longrightarrow> \<exists>s. route_suffix r = Ok s"
  by (auto simp: route_suffix_def dest: scalar_to_string)

lemma walk_detail_ok:
  assumes "scalar (field leg (asc ''distance''))"
    and "int_or_absent (field leg (asc ''sectionTime''))"
    and "scalar s" and "scalar e"
    and "list_all step_ok (elems (field leg (asc ''steps'')))"
  shows "\<exists>desc. walk_detail leg s e = Ok desc"
proof -
  obtain dist where "to_string (field leg (asc ''distance'')) = Ok dist"
    using scalar_to_string [OF assms(1)] by blast
  moreover obtain l1 where "labelled_line depart_label s = Ok l1"
    using labelled_line_scalar [OF assms(3)] by blast
  moreover obtain l2 where "labelled_line arrive_label e = Ok l2"
    using labelled_line_scalar [OF assms(4)] by blast
  moreover obtain l3 where "walk_steps leg = Ok l3"
    using walk_steps_ok [OF assms(5)] by blast
  ultimately show ?thesis
    by (simp add: walk_detail_def section_minutes [OF assms(2)])
qed

lemma transit_detail_total:
  assumes "scalar (field leg (asc ''mode''))" and "scalar (field leg (asc ''route''))"
    and "scalar (field leg (asc ''distance''))"
    and "int_or_absent (field leg (asc ''sectionTime''))"
    and "scalar s" and "scalar e"
    and "lane_block leg = Ok l3" and "stations_block leg = Ok l4"
  shows "\<exists>head. transit_detail leg s e = Ok (head @ l3 @ l4)"
proof -
  obtain mode where "to_string (field leg (asc ''mode'')) = Ok mode"
    using scalar_to_string [OF assms(1)] by blast
  moreover obtain route where "route_suffix (field leg (asc ''route'')) = Ok route"
    using route_suffix_ok [OF assms(2)] by blast
  moreover obtain dist where "to_string (field leg (asc ''distance'')) = Ok dist"
    using scalar_to_string [OF assms(3)] by blast
  moreover obtain l1 where "labelled_line board_label s = Ok l1"
    using labelled_line_scalar [OF assms(5)] by blast
  moreover obtain l2 where "labelled_line alight_label e = Ok l2"
    using labelled_line_scalar [OF assms(6)] by blast
  ultimately have "transit_detail leg s e
      = Ok ((mode @ route @ asc '' - '' @ dist @ asc ''m, '' @ about
              @ int_text ((int_of (field leg (asc ''sectionTime'')) + 30) div 60)
              @ minute_unit @ nl @ l1 @ l2) @ l3 @ l4)"
    by (simp add: transit_detail_def section_minutes [OF assms(4)] assms(7,8))
  then show ?thesis by blast
qed

lemma leg_ok_names:
  assumes "leg_ok leg"
  shows "scalar (name_of (field leg (asc ''start'')))" "scalar (name_of (field leg (asc ''end'')))"
  using assms by (simp_all add: leg_ok_def name_of_scalar)

lemma leg_detail_transit_total:
  assumes "leg_ok leg" and "field leg (asc ''mode'') \<noteq> JStr (asc ''WALK'')"
  shows "\<exists>head l3 l4. lane_block leg = Ok l3 \<and> stations_block leg = Ok l4
           \<and> leg_detail idx leg = Ok (js_trim (leg_number idx @ head @ l3 @ l4))"
proof -
  from assms(1) have ok: "\<not> nullish leg" "scalar (field leg (asc ''mode''))"
    "scalar (field leg (asc ''route''))" "scalar (field leg (asc ''distance''))"
    "int_or_absent (field leg (asc ''sectionTime''))"
    "lanes_ok (field leg (asc ''Lane''))"
    "list_all station_ok (elems (field (field leg (asc ''passStopList'')) (asc ''stationList'')))"
    by (simp_all add: leg_ok_def)
  obtain l3 where l3: "lane_block leg = Ok l3" using lane_block_ok [OF ok(6)] by blast
  obtain l4 where l4: "stations_block leg = Ok l4" using stations_block_ok [OF ok(7)] by blast
  from transit_detail_total [OF ok(2-5) leg_ok_names [OF assms(1)] l3 l4]
  obtain head where "transit_detail leg (name_of (field leg (asc ''start'')))
      (name_of (field leg (asc ''end''))) = Ok (head @ l3 @ l4)"
    by blast
  then have "leg_detail idx leg = Ok (js_trim (leg_number idx @ head @ l3 @ l4))"
    using ok(1) assms(2) by (simp add: leg_detail_def get_def)
  with l3 l4 show ?thesis by blast
qed

lemma leg_detail_ok:
  assumes "leg_ok leg"
  shows "\<exists>t. leg_detail idx leg = Ok t"
proof (cases "field leg (asc ''mode'') = JStr (asc ''WALK'')")
  case True
  from assms have ok: "\<not> nullish leg" "scalar (field leg (asc ''distance''))"
    "int_or_absent (field leg (asc ''sectionTime''))"
    "list_all step_ok (elems (field leg (asc ''steps'')))"
    by (simp_all add: leg_ok_def)
  from walk_detail_ok [OF ok(2,3) leg_ok_names [OF assms] ok(4)]
  obtain desc where "walk_detail leg (name_of (field leg (asc ''start'')))
      (name_of (field leg (asc ''end''))) = Ok desc"
    by blast
  then show ?thesis using ok(1) True by (simp add: leg_detail_def get_def)
next
  case False
  from leg_detail_transit_total [OF assms False] show ?thesis by blast
qed

lemma leg_label_ok:
  assumes "leg_ok leg"
  shows "\<exists>l. leg_label leg = Ok l \<and> scalar l"
  using assms by (auto simp: leg_ok_def leg_label_def get_def)

lemma route_summary_ok:
  assumes "list_all leg_ok legs"
  shows "\<exists>stops. route_summary legs = Ok stops"
  using assms
proof -
  have "\<exists>ls. rmap leg_label legs = Ok ls \<and> (\<forall>l \<in> set ls. scalar l)"
    using assms
  proof (induction legs)
    case Nil
    then show ?case by (simp add: rmap_def)
  next
    case (Cons leg legs)
    then obtain ls where "rmap leg_label legs = Ok ls" "\<forall>l \<in> set ls. scalar l" by auto
    moreover from Cons.prems obtain l where "leg_label leg = Ok l" "scalar l"
      using leg_label_ok [of leg] by auto
    ultimately show ?case by (auto simp: rmap_def)
  qed
  then obtain ls where ls: "rmap leg_label legs = Ok ls" "\<forall>l \<in> set ls. scalar l" by blast
  from join_vals_ok [OF ls(2)] obtain s where "join_vals arrow ls = Ok s" by blast
  with ls(1) show ?thesis by (simp add: route_summary_def)
qed

lemma legs_detail_ok:
  assumes "list_all leg_ok legs"
  shows "\<exists>detail. legs_detail legs = Ok detail"
proof -
  have "\<exists>ds. rseq (map (\<lambda>(idx, leg). leg_detail idx leg) (zip [0..<length legs] legs)) = Ok ds"
  proof (rule rseq_ok, rule ballI)
    fix r assume "r \<in> set (map (\<lambda>(idx, leg). leg_detail idx leg) (zip [0..<length legs] legs))"
    then obtain idx leg where "r = leg_detail idx leg" "leg \<in> set legs"
      by (auto dest: set_zip_rightD)
    with assms show "\<exists>x. r = Ok x" by (auto simp: list_all_iff dest: leg_detail_ok)
  qed
  then show ?thesis by (auto simp: legs_detail_def)
qed

lemma legs_of_ok:
  assumes "legs_ok (field best (asc ''legs''))"
  shows "legs_of best = Ok (elems (field best (asc ''legs'')))"
  using assms
  by (cases "field best (asc ''legs'')") (auto simp: legs_ok_def legs_of_def or_else_def)

lemma opt_minutes_int:
  assumes "int_or_absent v"
  shows "opt_minutes v = Ok (if int_of v = 0 then None else Some ((int_of v + 30) div 60))"
  using assms by (cases v) (simp_all add: opt_minutes_def round_minutes_def round_div_60)

lemma minutes_line_int:
  assumes "int_or_absent v"
  shows "minutes_line label (if int_of v = 0 then None else Some ((int_of v + 30) div 60))
           = Ok (if int_of v = 0 then []
                 else label @ int_text ((int_of v + 30) div 60) @ minute_unit @ nl)"
  using int_or_absent_safe [OF assms]
  by (simp add: minutes_line_def int_text_round_ok)

lemma opt_km_int:
  assumes "int_or_absent v"
  shows "opt_km v = Ok (if int_of v = 0 then None else Some (to_fixed1 (int_of v) 1000))"
  using assms by (cases v) (simp_all add: opt_km_def km_text_def)

lemma km_line_int:
  "km_line (if n = 0 then None else Some (to_fixed1 n 1000))
     = (if n = 0 then [] else distance_label @ to_fixed1 n 1000 @ asc ''km'' @ nl)"
  by (simp add: km_line_def to_fixed1_nonempty)

lemma amount_line_int:
  assumes "int_or_absent v"
  shows "amount_line label unit (nullish_else v (JNum 0))
           = Ok (if int_of v = 0 then [] else label @ int_text (int_of v) @ unit @ nl)"
  using assms by (cases v) (simp_all add: amount_line_def nullish_else_def num_to_string_def)

lemma transfers_int:
  assumes "int_or_absent v"
  shows "to_string (nullish_else v (JNum 0)) = Ok (int_text (int_of v))"
  using assms by (cases v) (simp_all add: nullish_else_def num_to_string_def safe_int_0)

lemma itinerary_report_total:
  assumes "metrics_ok best" and "legs_of best = Ok ls"
    and "route_summary ls = Ok stops" and "legs_detail ls = Ok detail"
  shows "itinerary_report best
           = Ok (summary_label @ stops @ nl @ metrics_block_spec best @ nl @ detail_heading @ nl
                   @ detail)"
proof -
  from assms(1) have ok: "\<not> nullish best"
    "int_or_absent (field best (asc ''totalTime''))"
    "int_or_absent (field best (asc ''transferCount''))"
    "int_or_absent (opt (opt (field best (asc ''fare'')) (asc ''regular'')) (asc ''totalFare''))"
    "int_or_absent (field best (asc ''totalDistance''))"
    "int_or_absent (field best (asc ''totalWalkDistance''))"
    "int_or_absent (field best (asc ''totalWalkTime''))"
    by (simp_all add: metrics_ok_def fare_of_def)
  show ?thesis
    unfolding itinerary_report_def metrics_block_spec_def fare_of_def Let_def
    by (simp add: get_def ok(1) opt_minutes_int [OF ok(2)] opt_minutes_int [OF ok(7)]
        opt_km_int [OF ok(5)] assms(2,3,4) minutes_line_int [OF ok(2)]
        minutes_line_int [OF ok(7)] transfers_int [OF ok(3)] amount_line_int [OF ok(4)]
        amount_line_int [OF ok(6)] km_line_int del: field.simps)
qed

lemma itinerary_report_ok:
  assumes "itinerary_ok best"
  shows "\<exists>stops detail.
      route_summary (elems (field best (asc ''legs''))) = Ok stops
    \<and> legs_detail (elems (field best (asc ''legs''))) = Ok detail
    \<and> itinerary_report best
        = Ok (summary_label @ stops @ nl @ metrics_block_spec best @ nl @ detail_heading @ nl
                @ detail)"
proof -
  from assms have m: "metrics_ok best" and l: "legs_ok (field best (asc ''legs''))"
    by (simp_all add: itinerary_ok_def)
  from l have all: "list_all leg_ok (elems (field best (asc ''legs'')))"
    by (simp add: legs_ok_def)
  obtain stops where s: "route_summary (elems (field best (asc ''legs''))) = Ok stops"
    using route_summary_ok [OF all] by blast
  obtain detail where d: "legs_detail (elems (field best (asc ''legs''))) = Ok detail"
    using legs_detail_ok [OF all] by blast
  from itinerary_report_total [OF m legs_of_ok [OF l] s d] s d show ?thesis by blast
qed

lemma leg_detail_first_lane:
  assumes "leg_ok leg" and "field leg (asc ''mode'') \<noteq> JStr (asc ''WALK'')"
    and "field leg (asc ''Lane'') = JArr (lane # more)"
  shows "\<exists>head r t l4.
      to_string (field lane (asc ''route'')) = Ok r
    \<and> to_string (field lane (asc ''type'')) = Ok t
    \<and> stations_block leg = Ok l4
    \<and> lane_block leg =
        Ok ((if truthy (field lane (asc ''route'')) then lane_route_label @ r @ nl else [])
            @ (if truthy (field lane (asc ''type'')) then lane_type_label @ t @ nl else [])
            @ (if field lane (asc ''service'') \<noteq> JUndefined
               then service_label
                    @ (if field lane (asc ''service'') = JNum 1 then operating else ended) @ nl
               else []))
    \<and> leg_detail idx leg =
        Ok (js_trim (leg_number idx @ head
            @ ((if truthy (field lane (asc ''route'')) then lane_route_label @ r @ nl else [])
               @ (if truthy (field lane (asc ''type'')) then lane_type_label @ t @ nl else [])
               @ (if field lane (asc ''service'') \<noteq> JUndefined
                  then service_label
                       @ (if field lane (asc ''service'') = JNum 1 then operating else ended) @ nl
                  else []))
            @ l4))"
proof -
  from assms(1,3) have lane: "\<not> nullish lane" "scalar (field lane (asc ''route''))"
    "scalar (field lane (asc ''type''))"
    by (simp_all add: leg_ok_def lanes_ok_def)
  from lane_block_first [OF assms(3) lane] obtain r t where
    r: "to_string (field lane (asc ''route'')) = Ok r"
    and t: "to_string (field lane (asc ''type'')) = Ok t"
    and lb: "lane_block leg =
        Ok ((if truthy (field lane (asc ''route'')) then lane_route_label @ r @ nl else [])
            @ (if truthy (field lane (asc ''type'')) then lane_type_label @ t @ nl else [])
            @ (if field lane (asc ''service'') \<noteq> JUndefined
               then service_label
                    @ (if field lane (asc ''service'') = JNum 1 then operating else ended) @ nl
               else []))"
    by blast
  from leg_detail_transit_total [OF assms(1,2), of idx] obtain head l3 l4 where
    "lane_block leg = Ok l3" and l4: "stations_block leg = Ok l4"
    and d: "leg_detail idx leg = Ok (js_trim (leg_number idx @ head @ l3 @ l4))"
    by blast
  with lb have "leg_detail idx leg =
        Ok (js_trim (leg_number idx @ head
            @ ((if truthy (field lane (asc ''route'')) then lane_route_label @ r @ nl else [])
               @ (if truthy (field lane (asc ''type'')) then lane_type_label @ t @ nl else [])
               @ (if field lane (asc ''service'') \<noteq> JUndefined
                  then service_label
                       @ (if field lane (asc ''service'') = JNum 1 then operating else ended) @ nl
                  else []))
            @ l4))"
    by simp
  with r t l4 lb show ?thesis by blast
qed


subsection \<open>The example responses have the documented shape\<close>

lemmas shape_defs = scalar.simps int_or_absent.simps step_ok_def lanes_ok_def station_ok_def
  leg_ok_def fare_of_def metrics_ok_def legs_ok_def itinerary_ok_def

lemma sample_legs_ok: "leg_ok sample_walk_leg" "leg_ok sample_bus_leg"
  by (simp_all add: sample_walk_leg_def sample_bus_leg_def shape_defs value_defs)

lemma sample_itinerary_ok: "itinerary_ok sample_itinerary"
  by (simp add: itinerary_ok_def legs_ok_def metrics_ok_def fare_of_def sample_legs_ok
      sample_itinerary_def value_defs)

lemma sample_itinerary_metrics:
  "metrics_block_spec sample_itinerary =
     duration_label @ asc ''2'' @ minute_unit @ nl
     @ transfers_label @ asc ''1'' @ times_unit @ nl
     @ fare_label @ asc ''1500'' @ won_unit @ nl
     @ distance_label @ asc ''1.1km'' @ nl"
  by (simp add: metrics_block_spec_def fare_of_def sample_itinerary_def value_defs
      to_fixed1_1050)

lemma sample_metrics_block:
  "metrics_block_spec sample_itinerary_no_legs =
     duration_label @ asc ''2'' @ minute_unit @ nl
     @ transfers_label @ asc ''1'' @ times_unit @ nl
     @ fare_label @ asc ''1500'' @ won_unit @ nl
     @ distance_label @ asc ''1.1km'' @ nl"
  by (simp add: metrics_block_spec_def fare_of_def sample_itinerary_no_legs_def value_defs
      to_fixed1_1050)

lemma bus_legs_ok: "leg_ok bus_leg_one_lane" "leg_ok bus_leg_two_lanes" "leg_ok bus_leg_ended"
  "leg_ok bus_leg_no_service"
  by (simp_all add: bus_leg_one_lane_def bus_leg_two_lanes_def bus_leg_ended_def
      bus_leg_no_service_def shape_defs value_defs)

section \<open>The claims\<close>

text \<open>
  C1 (as the specification states it): an itinerary whose list of legs is empty is
  rejected before formatting. The tool does not do so: \<^verbatim>\<open>best.legs || []\<close> (line 116)
  takes the empty or missing list as it is, and the report is built with an empty route
  summary and an empty detail section. Here is the report for the body
  \<^verbatim>\<open>{ metaData: { plan: { itineraries: [ { legs: [] } ] } } }\<close>.
\<close>

theorem empty_legs_are_formatted:
  "execute (Resolved (response_with (JArr [obj [(''legs'', JArr [])]])))
     = Ok (summary_label @ nl @ transfers_label @ asc ''0'' @ times_unit @ nl @ nl
             @ detail_heading @ nl)
   \<and> execute (Resolved (response_with (JArr [obj [(''legs'', JArr [])]]))) \<noteq> Ok not_found_text"
  by (simp add: tool_defs value_defs label_defs)

text \<open>
  C1 (amended): a response whose first itinerary has an empty list of legs is not
  rejected. Its result is never the not-found sentence; it is what the formatter gives
  for that itinerary; and when the metrics of the itinerary are integers or missing, it
  is the zero-leg report: the summary label with an empty route summary, the metrics
  block, the heading and an empty detail section.
\<close>

theorem empty_legs_reach_the_formatter:
  assumes "opt (plan_of data) (asc ''itineraries'') = JArr (best # more)"
    and "field best (asc ''legs'') = JArr []"
  shows "execute (Resolved data) \<noteq> Ok not_found_text
       \<and> execute_body data = itinerary_report best
       \<and> (metrics_ok best \<longrightarrow>
            execute (Resolved data)
              = Ok (summary_label @ nl @ metrics_block_spec best @ nl @ detail_heading @ nl))"
proof (intro conjI impI)
  show body: "execute_body data = itinerary_report best"
    by (rule execute_body_first [OF assms(1)])
  then show "execute (Resolved data) \<noteq> Ok not_found_text"
    by (rule formatter_never_not_found)
  assume m: "metrics_ok best"
  have legs: "legs_of best = Ok []"
    by (simp add: legs_of_def assms(2) or_else_def)
  have empty: "route_summary [] = Ok []" "legs_detail [] = Ok []"
    by (simp_all add: route_summary_def legs_detail_def rmap_def join_vals_def)
  from itinerary_report_total [OF m legs empty]
  show "execute (Resolved data)
          = Ok (summary_label @ nl @ metrics_block_spec best @ nl @ detail_heading @ nl)"
    by (simp add: body)
qed

theorem empty_legs_reach_the_formatter_witness:
  "opt (plan_of (response_with (JArr [sample_itinerary_no_legs]))) (asc ''itineraries'')
     = JArr [sample_itinerary_no_legs]
   \<and> field sample_itinerary_no_legs (asc ''legs'') = JArr []
   \<and> metrics_ok sample_itinerary_no_legs
   \<and> execute (Resolved (response_with (JArr [sample_itinerary_no_legs]))) = Ok zero_leg_report
   \<and> zero_leg_report \<noteq> not_found_text"
proof -
  have its: "opt (plan_of (response_with (JArr [sample_itinerary_no_legs]))) (asc ''itineraries'')
     = JArr (sample_itinerary_no_legs # [])"
    by (simp add: plan_of_def value_defs)
  have legs: "field sample_itinerary_no_legs (asc ''legs'') = JArr []"
    by (simp add: sample_itinerary_no_legs_def value_defs)
  have m: "metrics_ok sample_itinerary_no_legs"
    by (simp add: metrics_ok_def fare_of_def sample_itinerary_no_legs_def value_defs)
  have z: "summary_label @ nl @ metrics_block_spec sample_itinerary_no_legs @ nl
             @ detail_heading @ nl = zero_leg_report"
    by (simp add: sample_metrics_block zero_leg_report_def)
  from empty_legs_reach_the_formatter [OF its legs] m
  have "execute (Resolved (response_with (JArr [sample_itinerary_no_legs])))
          \<noteq> Ok not_found_text"
    and "execute (Resolved (response_with (JArr [sample_itinerary_no_legs])))
          = Ok (summary_label @ nl @ metrics_block_spec sample_itinerary_no_legs @ nl
                  @ detail_heading @ nl)"
    by blast+
  then show ?thesis using its legs m unfolding z by simp
qed

text \<open>
  C2 (as the specification states it): when the plan, its list of itineraries or any
  itinerary is missing, or the list is empty, the result is the not-found sentence. The
  guard of line 85 looks at the plan, at the list and at its length, never at an entry:
  for the list \<^verbatim>\<open>[null]\<close> the itinerary is missing, the guard lets it pass,
  reading \<^verbatim>\<open>best.totalTime\<close> (line 98) throws, and the result is the failure line.
\<close>

theorem null_first_itinerary_is_not_not_found:
  "execute (Resolved (response_with (JArr [JNull])))
     = Ok (failure_prefix @ cannot_read_msg JNull (asc ''totalTime''))
   \<and> execute (Resolved (response_with (JArr [JNull]))) \<noteq> Ok not_found_text"
  by (simp add: tool_defs value_defs label_defs)

text \<open>
  C2 (amended): when the plan is missing, or its list of itineraries is missing or is the
  empty list, the result is the not-found sentence and nothing else, so no summary is
  made up for it, and it is the same sentence for every such response. More precisely,
  the tool gives the not-found sentence exactly when the guard of line 85 holds: the
  plan is falsy, the list is falsy, or the length of the list is 0. A list that holds an
  entry is never answered with the not-found sentence, whatever the entry is.
\<close>

theorem not_found_exactly_without_itinerary:
  "(nullish (opt (plan_of data) (asc ''itineraries''))
      \<or> opt (plan_of data) (asc ''itineraries'') = JArr []
    \<longrightarrow> execute (Resolved data) = Ok not_found_text)
   \<and> (execute (Resolved data) = Ok not_found_text
        \<longleftrightarrow> \<not> truthy (plan_of data)
            \<or> \<not> truthy (opt (plan_of data) (asc ''itineraries''))
            \<or> field (opt (plan_of data) (asc ''itineraries'')) (asc ''length'') = JNum 0)"
proof -
  let ?plan = "plan_of data"
  let ?its = "opt ?plan (asc ''itineraries'')"
  let ?G = "\<not> truthy ?plan \<or> \<not> truthy ?its \<or> field ?its (asc ''length'') = JNum 0"
  have its: "truthy ?plan \<Longrightarrow> ?its = field ?plan (asc ''itineraries'')"
    by (cases ?plan) (simp_all add: opt_def)
  have yes: "execute (Resolved data) = Ok not_found_text" if ?G
    using that its by (auto simp: execute_body_def Let_def)
  have no: "execute (Resolved data) \<noteq> Ok not_found_text" if "\<not> ?G"
  proof -
    from that its have "execute_body data = itinerary_report (field ?its (asc ''0''))"
      by (auto simp: execute_body_def Let_def)
    then show ?thesis by (rule formatter_never_not_found)
  qed
  have "?G" if "nullish ?its \<or> ?its = JArr []"
    using that by (cases ?its) auto
  with yes no show ?thesis by blast
qed

theorem not_found_exactly_without_itinerary_witness:
  "execute (Resolved (response_with (JArr []))) = Ok not_found_text
   \<and> execute (Resolved (obj [(''metaData'', obj [(''plan'', obj [])])])) = Ok not_found_text
   \<and> execute (Resolved (obj [(''metaData'', obj [])])) = Ok not_found_text
   \<and> execute (Resolved JNull) = Ok not_found_text
   \<and> execute (Resolved (response_with (JArr [sample_itinerary_no_legs]))) \<noteq> Ok not_found_text"
  using not_found_exactly_without_itinerary [of "response_with (JArr [])"]
    not_found_exactly_without_itinerary [of "obj [(''metaData'', obj [(''plan'', obj [])])]"]
    not_found_exactly_without_itinerary [of "obj [(''metaData'', obj [])]"]
    not_found_exactly_without_itinerary [of JNull]
    not_found_exactly_without_itinerary [of "response_with (JArr [sample_itinerary_no_legs])"]
  by (simp add: plan_of_def value_defs index_keys_def)






text \<open>
  C5: for an itinerary of the documented shape the report is produced, and it is the
  route summary line, the metrics block in the words of the specification
  (\<open>metrics_block_spec\<close>: duration if present, transfers always, fare only if nonzero,
  total distance if present, walk distance only if nonzero, walk time if present, the
  three defaults being 0), the heading and the details of the legs. And whenever a
  report is produced, for any itinerary, its text is made of these lines in this order:
  the duration line is there exactly when \<^verbatim>\<open>totalTime\<close> is truthy, the transfers
  line always, the fare line exactly when the fare is truthy, the distance line exactly
  when \<^verbatim>\<open>totalDistance\<close> is truthy, the walk distance line exactly when the walk
  distance is truthy, and the walk time line exactly when \<^verbatim>\<open>totalWalkTime\<close> is
  truthy; an omitted count of transfers reads 0, and an omitted fare or walk distance
  leaves its line out.
\<close>

theorem metrics_block_order:
  "(itinerary_ok best \<longrightarrow>
      (\<exists>stops detail.
          route_summary (elems (field best (asc ''legs''))) = Ok stops
        \<and> legs_detail (elems (field best (asc ''legs''))) = Ok detail
        \<and> itinerary_report best
            = Ok (summary_label @ stops @ nl @ metrics_block_spec best @ nl @ detail_heading @ nl
                    @ detail)))
   \<and> (\<forall>t. itinerary_report best = Ok t \<longrightarrow>
        (\<exists>stops dur tr fa di wd wt detail.
      t = summary_label @ stops @ nl
            @ dur @ (transfers_label @ tr @ times_unit @ nl) @ fa @ di @ wd @ wt
            @ nl @ detail_heading @ nl @ detail
    \<and> (if truthy (field best (asc ''totalTime''))
         then \<exists>x. minutes_text (field best (asc ''totalTime'')) = Ok x
                   \<and> dur = duration_label @ x @ minute_unit @ nl
         else dur = [])
    \<and> to_string (nullish_else (field best (asc ''transferCount'')) (JNum 0)) = Ok tr
    \<and> (field best (asc ''transferCount'') = JUndefined \<longrightarrow> tr = asc ''0'')
    \<and> (let fare = nullish_else
                      (opt (opt (field best (asc ''fare'')) (asc ''regular'')) (asc ''totalFare''))
                      (JNum 0)
        in if truthy fare
           then \<exists>x. to_string fare = Ok x \<and> fa = fare_label @ x @ won_unit @ nl
           else fa = [])
    \<and> (field best (asc ''fare'') = JUndefined \<longrightarrow> fa = [])
    \<and> (if truthy (field best (asc ''totalDistance''))
         then \<exists>x. km_text (field best (asc ''totalDistance'')) = Ok x
                   \<and> di = distance_label @ x @ asc ''km'' @ nl
         else di = [])
    \<and> (let walk = nullish_else (field best (asc ''totalWalkDistance'')) (JNum 0)
        in if truthy walk
           then \<exists>x. to_string walk = Ok x \<and> wd = walk_distance_label @ x @ asc ''m'' @ nl
           else wd = [])
    \<and> (field best (asc ''totalWalkDistance'') = JUndefined \<longrightarrow> wd = [])
    \<and> (if truthy (field best (asc ''totalWalkTime''))
         then \<exists>x. minutes_text (field best (asc ''totalWalkTime'')) = Ok x
                   \<and> wt = walk_time_label @ x @ minute_unit @ nl
         else wt = [])))"
  apply (intro conjI impI allI)
   apply (erule itinerary_report_ok)
  apply (erule metrics_block_shape)
  done

theorem metrics_block_order_witness:
  "itinerary_ok sample_itinerary
   \<and> itinerary_report sample_itinerary = Ok sample_report
   \<and> (\<exists>stops detail.
        sample_report = summary_label @ stops @ nl
          @ (duration_label @ asc ''2'' @ minute_unit @ nl
             @ transfers_label @ asc ''1'' @ times_unit @ nl
             @ fare_label @ asc ''1500'' @ won_unit @ nl
             @ distance_label @ asc ''1.1km'' @ nl)
          @ nl @ detail_heading @ nl @ detail)
   \<and> (\<exists>stops dur tr fa di wd wt detail.
        sample_report = summary_label @ stops @ nl
            @ dur @ (transfers_label @ tr @ times_unit @ nl) @ fa @ di @ wd @ wt
            @ nl @ detail_heading @ nl @ detail
        \<and> dur = duration_label @ asc ''2'' @ minute_unit @ nl
        \<and> tr = asc ''1''
        \<and> fa = fare_label @ asc ''1500'' @ won_unit @ nl
        \<and> di = distance_label @ asc ''1.1'' @ asc ''km'' @ nl
        \<and> wd = [] \<and> wt = [])"
proof -
  have f: "field sample_itinerary (asc ''totalTime'') = JNum 125"
    "field sample_itinerary (asc ''transferCount'') = JNum 1"
    "field sample_itinerary (asc ''totalDistance'') = JNum 1050"
    "field sample_itinerary (asc ''totalWalkDistance'') = JUndefined"
    "field sample_itinerary (asc ''totalWalkTime'') = JUndefined"
    "opt (opt (field sample_itinerary (asc ''fare'')) (asc ''regular'')) (asc ''totalFare'')
       = JNum 1500"
    by (simp_all add: sample_itinerary_def value_defs)
  have v: "minutes_text (JNum 125) = Ok (asc ''2'')" "km_text (JNum 1050) = Ok (asc ''1.1'')"
    "num_to_string 1 = Ok (asc ''1'')" "num_to_string 1500 = Ok (asc ''1500'')"
    by (simp_all add: minutes_text_def round_minutes_def km_text_def round_div_60 to_fixed1_1050
        value_defs)
  note both = metrics_block_order [of sample_itinerary]
  from both sample_itinerary_ok
  obtain stops detail where "itinerary_report sample_itinerary
            = Ok (summary_label @ stops @ nl @ metrics_block_spec sample_itinerary @ nl
                    @ detail_heading @ nl @ detail)"
    by blast
  then have "sample_report = summary_label @ stops @ nl
          @ (duration_label @ asc ''2'' @ minute_unit @ nl
             @ transfers_label @ asc ''1'' @ times_unit @ nl
             @ fare_label @ asc ''1500'' @ won_unit @ nl
             @ distance_label @ asc ''1.1km'' @ nl)
          @ nl @ detail_heading @ nl @ detail"
    unfolding sample_itinerary_report sample_itinerary_metrics by simp
  then have a: "\<exists>stops detail.
        sample_report = summary_label @ stops @ nl
          @ (duration_label @ asc ''2'' @ minute_unit @ nl
             @ transfers_label @ asc ''1'' @ times_unit @ nl
             @ fare_label @ asc ''1500'' @ won_unit @ nl
             @ distance_label @ asc ''1.1km'' @ nl)
          @ nl @ detail_heading @ nl @ detail"
    by blast
  from both [THEN conjunct2, rule_format, OF sample_itinerary_report]
  have b: "\<exists>stops dur tr fa di wd wt detail.
        sample_report = summary_label @ stops @ nl
            @ dur @ (transfers_label @ tr @ times_unit @ nl) @ fa @ di @ wd @ wt
            @ nl @ detail_heading @ nl @ detail
        \<and> dur = duration_label @ asc ''2'' @ minute_unit @ nl
        \<and> tr = asc ''1''
        \<and> fa = fare_label @ asc ''1500'' @ won_unit @ nl
        \<and> di = distance_label @ asc ''1.1'' @ asc ''km'' @ nl
        \<and> wd = [] \<and> wt = []"
    unfolding f Let_def nullish_else_def
    by (simp add: v)
  from sample_itinerary_ok sample_itinerary_report a b show ?thesis by (intro conjI)
qed

text \<open>
  C6: a transit leg of the documented shape whose list of lanes holds an entry is
  rendered, and its detail is the head of the leg, the route line and the type line of
  the first lane (each only if the value is truthy), the status line and the passed
  stations. The status line is the service label with the literal for \<^emph>\<open>operating\<close>
  when \<^verbatim>\<open>service\<close> is 1, with the literal for \<^emph>\<open>ended\<close> when it is 0, and there
  is no status line when the lane has no \<^verbatim>\<open>service\<close>. (A \<^verbatim>\<open>service\<close> that is
  there with another value, \<^verbatim>\<open>null\<close> included, is not absent for line 168: the line
  then reads \<^emph>\<open>ended\<close>.) The same holds for the status line of every transit leg whose
  detail is produced, of the documented shape or not.
\<close>

theorem lane_service_status:
  assumes "field leg (asc ''mode'') \<noteq> JStr (asc ''WALK'')"
    and "field leg (asc ''Lane'') = JArr (lane # more)"
  shows "(leg_ok leg \<longrightarrow>
      (\<exists>head r t status l4.
          to_string (field lane (asc ''route'')) = Ok r
        \<and> to_string (field lane (asc ''type'')) = Ok t
        \<and> stations_block leg = Ok l4
        \<and> lane_block leg =
            Ok ((if truthy (field lane (asc ''route'')) then lane_route_label @ r @ nl else [])
                @ (if truthy (field lane (asc ''type'')) then lane_type_label @ t @ nl else [])
                @ status)
        \<and> leg_detail idx leg =
            Ok (js_trim (leg_number idx @ head
                @ ((if truthy (field lane (asc ''route'')) then lane_route_label @ r @ nl else [])
                   @ (if truthy (field lane (asc ''type'')) then lane_type_label @ t @ nl else [])
                   @ status)
                @ l4))
        \<and> (field lane (asc ''service'') = JNum 1 \<longrightarrow> status = service_label @ operating @ nl)
        \<and> (field lane (asc ''service'') = JNum 0 \<longrightarrow> status = service_label @ ended @ nl)
        \<and> (field lane (asc ''service'') = JUndefined \<longrightarrow> status = [])
        \<and> (field lane (asc ''service'') \<notin> {JUndefined, JNum 1}
             \<longrightarrow> status = service_label @ ended @ nl)))
    \<and> (\<forall>d. leg_detail idx leg = Ok d \<longrightarrow>
        (\<exists>head l1 l2 status l4.
            d = js_trim (leg_number idx @ head @ l1 @ l2 @ status @ l4)
          \<and> lane_block leg = Ok (l1 @ l2 @ status)
          \<and> labelled_line lane_route_label (field lane (asc ''route'')) = Ok l1
          \<and> labelled_line lane_type_label (field lane (asc ''type'')) = Ok l2
          \<and> stations_block leg = Ok l4
          \<and> (field lane (asc ''service'') = JNum 1 \<longrightarrow> status = service_label @ operating @ nl)
          \<and> (field lane (asc ''service'') = JNum 0 \<longrightarrow> status = service_label @ ended @ nl)
          \<and> (field lane (asc ''service'') = JUndefined \<longrightarrow> status = [])))"
proof (intro conjI impI allI)
  fix d assume "leg_detail idx leg = Ok d"
  with assms show "\<exists>head l1 l2 status l4.
            d = js_trim (leg_number idx @ head @ l1 @ l2 @ status @ l4)
          \<and> lane_block leg = Ok (l1 @ l2 @ status)
          \<and> labelled_line lane_route_label (field lane (asc ''route'')) = Ok l1
          \<and> labelled_line lane_type_label (field lane (asc ''type'')) = Ok l2
          \<and> stations_block leg = Ok l4
          \<and> (field lane (asc ''service'') = JNum 1 \<longrightarrow> status = service_label @ operating @ nl)
          \<and> (field lane (asc ''service'') = JNum 0 \<longrightarrow> status = service_label @ ended @ nl)
          \<and> (field lane (asc ''service'') = JUndefined \<longrightarrow> status = [])"
    by (rule lane_status_shape)
next
  assume ok: "leg_ok leg"
  define status where "status = (if field lane (asc ''service'') \<noteq> JUndefined
               then service_label
                    @ (if field lane (asc ''service'') = JNum 1 then operating else ended) @ nl
               else [])"
  from leg_detail_first_lane [OF ok assms, of idx] obtain head r t l4 where
    r: "to_string (field lane (asc ''route'')) = Ok r"
    and t: "to_string (field lane (asc ''type'')) = Ok t"
    and l4: "stations_block leg = Ok l4"
    and lb: "lane_block leg =
        Ok ((if truthy (field lane (asc ''route'')) then lane_route_label @ r @ nl else [])
            @ (if truthy (field lane (asc ''type'')) then lane_type_label @ t @ nl else [])
            @ status)"
    and d: "leg_detail idx leg =
        Ok (js_trim (leg_number idx @ head
            @ ((if truthy (field lane (asc ''route'')) then lane_route_label @ r @ nl else [])
               @ (if truthy (field lane (asc ''type'')) then lane_type_label @ t @ nl else [])
               @ status)
            @ l4))"
    unfolding status_def by blast
  have s1: "field lane (asc ''service'') = JNum 1 \<longrightarrow> status = service_label @ operating @ nl"
    and s0: "field lane (asc ''service'') = JNum 0 \<longrightarrow> status = service_label @ ended @ nl"
    and su: "field lane (asc ''service'') = JUndefined \<longrightarrow> status = []"
    and so: "field lane (asc ''service'') \<notin> {JUndefined, JNum 1}
             \<longrightarrow> status = service_label @ ended @ nl"
    by (simp_all add: status_def)
  show "\<exists>head r t status l4.
          to_string (field lane (asc ''route'')) = Ok r
        \<and> to_string (field lane (asc ''type'')) = Ok t
        \<and> stations_block leg = Ok l4
        \<and> lane_block leg =
            Ok ((if truthy (field lane (asc ''route'')) then lane_route_label @ r @ nl else [])
                @ (if truthy (field lane (asc ''type'')) then lane_type_label @ t @ nl else [])
                @ status)
        \<and> leg_detail idx leg =
            Ok (js_trim (leg_number idx @ head
                @ ((if truthy (field lane (asc ''route'')) then lane_route_label @ r @ nl else [])
                   @ (if truthy (field lane (asc ''type'')) then lane_type_label @ t @ nl else [])
                   @ status)
                @ l4))
        \<and> (field lane (asc ''service'') = JNum 1 \<longrightarrow> status = service_label @ operating @ nl)
        \<and> (field lane (asc ''service'') = JNum 0 \<longrightarrow> status = service_label @ ended @ nl)
        \<and> (field lane (asc ''service'') = JUndefined \<longrightarrow> status = [])
        \<and> (field lane (asc ''service'') \<notin> {JUndefined, JNum 1}
             \<longrightarrow> status = service_label @ ended @ nl)"
    apply (intro exI conjI)
            apply (rule r)
           apply (rule t)
          apply (rule l4)
         apply (rule lb)
        apply (rule d)
       apply (rule s1)
      apply (rule s0)
     apply (rule su)
    apply (rule so)
    done
qed

theorem lane_service_status_witness:
  "field bus_leg_one_lane (asc ''mode'') \<noteq> JStr (asc ''WALK'')
   \<and> field bus_leg_one_lane (asc ''Lane'')
        = JArr [obj [(''route'', str ''146''), (''service'', JNum 1)]]
   \<and> leg_ok bus_leg_one_lane
   \<and> lane_block bus_leg_one_lane
        = Ok (lane_route_label @ asc ''146'' @ nl @ service_label @ operating @ nl)
   \<and> leg_detail 0 bus_leg_one_lane =
       Ok (asc ''[1] BUS - 5000m, '' @ about @ asc ''0'' @ minute_unit @ nl
             @ lane_route_label @ asc ''146'' @ nl @ service_label @ operating)
   \<and> leg_ok bus_leg_ended
   \<and> lane_block bus_leg_ended
        = Ok (lane_route_label @ asc ''146'' @ nl @ service_label @ ended @ nl)
   \<and> leg_ok bus_leg_no_service
   \<and> lane_block bus_leg_no_service = Ok (lane_route_label @ asc ''146'' @ nl)"
proof -
  let ?laneA = "obj [(''route'', str ''146''), (''service'', JNum 1)]"
  let ?laneB = "obj [(''route'', str ''146''), (''service'', JNum 0)]"
  let ?laneC = "obj [(''route'', str ''146'')]"
  have h1: "field bus_leg_one_lane (asc ''mode'') \<noteq> JStr (asc ''WALK'')"
    "field bus_leg_one_lane (asc ''Lane'') = JArr (?laneA # [])"
    by (simp_all add: bus_leg_one_lane_def value_defs)
  have h0: "field bus_leg_ended (asc ''mode'') \<noteq> JStr (asc ''WALK'')"
    "field bus_leg_ended (asc ''Lane'') = JArr (?laneB # [])"
    by (simp_all add: bus_leg_ended_def value_defs)
  have h: "field bus_leg_no_service (asc ''mode'') \<noteq> JStr (asc ''WALK'')"
    "field bus_leg_no_service (asc ''Lane'') = JArr (?laneC # [])"
    by (simp_all add: bus_leg_no_service_def value_defs)
  have f1: "field ?laneA (asc ''service'') = JNum 1"
    "field ?laneA (asc ''route'') = JStr (asc ''146'')"
    "field ?laneA (asc ''type'') = JUndefined"
    by (simp_all add: value_defs)
  have f0: "field ?laneB (asc ''service'') = JNum 0"
    "field ?laneB (asc ''route'') = JStr (asc ''146'')"
    "field ?laneB (asc ''type'') = JUndefined"
    by (simp_all add: value_defs)
  have f: "field ?laneC (asc ''service'') = JUndefined"
    "field ?laneC (asc ''route'') = JStr (asc ''146'')"
    "field ?laneC (asc ''type'') = JUndefined"
    by (simp_all add: value_defs)
  from lane_service_status [OF h1, of 0] bus_legs_ok(1)
  obtain r t status where "to_string (field ?laneA (asc ''route'')) = Ok r"
    "lane_block bus_leg_one_lane =
            Ok ((if truthy (field ?laneA (asc ''route'')) then lane_route_label @ r @ nl else [])
                @ (if truthy (field ?laneA (asc ''type'')) then lane_type_label @ t @ nl else [])
                @ status)"
    "field ?laneA (asc ''service'') = JNum 1 \<longrightarrow> status = service_label @ operating @ nl"
    by blast
  then have one: "lane_block bus_leg_one_lane
        = Ok (lane_route_label @ asc ''146'' @ nl @ service_label @ operating @ nl)"
    unfolding f1 by (auto simp add: asc_def)
  from lane_service_status [OF h0, of 0] bus_legs_ok(3)
  obtain r t status where "to_string (field ?laneB (asc ''route'')) = Ok r"
    "lane_block bus_leg_ended =
            Ok ((if truthy (field ?laneB (asc ''route'')) then lane_route_label @ r @ nl else [])
                @ (if truthy (field ?laneB (asc ''type'')) then lane_type_label @ t @ nl else [])
                @ status)"
    "field ?laneB (asc ''service'') = JNum 0 \<longrightarrow> status = service_label @ ended @ nl"
    by blast
  then have zero: "lane_block bus_leg_ended
        = Ok (lane_route_label @ asc ''146'' @ nl @ service_label @ ended @ nl)"
    unfolding f0 by (auto simp add: asc_def)
  from lane_service_status [OF h, of 0] bus_legs_ok(4)
  obtain r t status where "to_string (field ?laneC (asc ''route'')) = Ok r"
    "lane_block bus_leg_no_service =
            Ok ((if truthy (field ?laneC (asc ''route'')) then lane_route_label @ r @ nl else [])
                @ (if truthy (field ?laneC (asc ''type'')) then lane_type_label @ t @ nl else [])
                @ status)"
    "field ?laneC (asc ''service'') = JUndefined \<longrightarrow> status = []"
    by blast
  then have none: "lane_block bus_leg_no_service = Ok (lane_route_label @ asc ''146'' @ nl)"
    unfolding f by (auto simp add: asc_def)
  from lane_service_status [OF h1, THEN conjunct2, rule_format, OF bus_leg_one_lane_detail]
  obtain status where
    "field ?laneA (asc ''service'') = JNum 1 \<longrightarrow> status = service_label @ operating @ nl"
    by blast
  from h1 bus_legs_ok(1,3,4) one zero none bus_leg_one_lane_detail show ?thesis by simp
qed

text \<open>
  C7: the detail of a leg whose mode is \<^verbatim>\<open>WALK\<close> does not depend on its route or on its
  lanes: it is the detail of any leg that has the same other fields, and it is built by
  the walk branch alone, which writes no route in parentheses and no lane or status
  line.
\<close>

theorem walk_leg_ignores_route_and_lane:
  assumes "field leg (asc ''mode'') = JStr (asc ''WALK'')"
    and "\<not> nullish leg'"
    and "\<forall>k. k \<notin> {asc ''route'', asc ''Lane''} \<longrightarrow> field leg' k = field leg k"
  shows "leg_detail idx leg' = leg_detail idx leg
       \<and> leg_detail idx leg =
           rbind (walk_detail leg (name_of (field leg (asc ''start'')))
                    (name_of (field leg (asc ''end''))))
             (\<lambda>desc. Ok (js_trim (leg_number idx @ desc)))"
proof -
  have nn: "\<not> nullish leg" using assms(1) by (auto simp: field_nullish)
  have same: "field leg' k = field leg k" if "k \<noteq> asc ''route''" "k \<noteq> asc ''Lane''" for k
    using assms(3) that by simp
  have "leg_detail idx leg' = leg_detail idx leg"
    using assms(1,2) nn
    by (simp add: leg_detail_def walk_detail_def walk_steps_def get_def same asc_def)
  moreover have "leg_detail idx leg =
           rbind (walk_detail leg (name_of (field leg (asc ''start'')))
                    (name_of (field leg (asc ''end''))))
             (\<lambda>desc. Ok (js_trim (leg_number idx @ desc)))"
    using assms(1) nn by (simp add: leg_detail_def get_def)
  ultimately show ?thesis by simp
qed

theorem walk_leg_ignores_route_and_lane_witness:
  "field walk_leg_with_route (asc ''mode'') = JStr (asc ''WALK'')
   \<and> field walk_leg_with_route (asc ''route'') = JStr (asc ''146'')
   \<and> leg_detail 0 walk_leg_with_route = leg_detail 0 sample_walk_leg
   \<and> leg_detail 0 sample_walk_leg =
       Ok (asc ''[1] '' @ walk_token @ asc '' (300m, '' @ about @ asc ''4'' @ minute_unit
             @ asc '')'' @ nl @ depart_label @ asc ''A'' @ nl @ arrive_label @ asc ''B'')"
proof -
  have m: "field walk_leg_with_route (asc ''mode'') = JStr (asc ''WALK'')"
    "field walk_leg_with_route (asc ''route'') = JStr (asc ''146'')"
    by (simp_all add: walk_leg_with_route_def value_defs)
  have agree: "\<forall>k. k \<notin> {asc ''route'', asc ''Lane''}
                 \<longrightarrow> field sample_walk_leg k = field walk_leg_with_route k"
    by (simp add: walk_leg_with_route_def sample_walk_leg_def value_defs)
  have nn: "\<not> nullish sample_walk_leg" by (simp add: sample_walk_leg_def obj_def)
  have "leg_detail 0 sample_walk_leg =
       Ok (asc ''[1] '' @ walk_token @ asc '' (300m, '' @ about @ asc ''4'' @ minute_unit
             @ asc '')'' @ nl @ depart_label @ asc ''A'' @ nl @ arrive_label @ asc ''B'')"
    by (simp add: sample_walk_leg_def tool_defs value_defs round_div_60 label_defs)
  with walk_leg_ignores_route_and_lane [OF m(1) nn agree, of 0] m show ?thesis by simp
qed

lemma single_line_failure_prefix: "single_line failure_prefix"
  by (simp add: single_line_def failure_prefix_def asc_def)

text \<open>
  C8 (as the specification states it): the output of an upstream failure is exactly one
  line. The failure line holds the message as it is (line 225), so a message of two
  lines gives an output of two lines.
\<close>

theorem message_with_line_break_gives_two_lines:
  "execute (Rejected (AxiosError (asc ''connect'' @ nl @ asc ''refused'')))
     = Ok (failure_prefix @ asc ''connect'' @ nl @ asc ''refused'')
   \<and> \<not> single_line (failure_prefix @ asc ''connect'' @ nl @ asc ''refused'')"
  by (simp add: failure_text_def single_line_def nl_def)

text \<open>
  C8 (amended): when the request is rejected with an error, the result is the failure
  prefix followed by the message of the error and nothing else; it has the line breaks
  of the message and no other, so it is one line exactly when the message is one line.
  What is thrown inside the \<^verbatim>\<open>try\<close> block becomes the same failure line, no call
  of \<^verbatim>\<open>execute\<close> ends by throwing, and the result is a text wherever the
  \<^verbatim>\<open>try\<close> block stays within the modelled conversions.
\<close>

theorem upstream_failure_line:
  "execute (Rejected e) = Ok (failure_prefix @ message e)
   \<and> (single_line (failure_prefix @ message e) \<longleftrightarrow> single_line (message e))
   \<and> length (filter is_line_terminator (failure_prefix @ message e))
        = length (filter is_line_terminator (message e))
   \<and> (\<forall>data x. execute_body data = Throw x
         \<longrightarrow> execute (Resolved data) = Ok (failure_prefix @ message x))
   \<and> (\<forall>u x. execute u \<noteq> Throw x)
   \<and> (\<forall>data. execute_body data \<noteq> Unmodelled \<longrightarrow> (\<exists>t. execute (Resolved data) = Ok t))"
proof (intro conjI allI impI)
  show "\<exists>t. execute (Resolved data) = Ok t" if "execute_body data \<noteq> Unmodelled" for data
    using that by (cases "execute_body data") simp_all
  show "execute (Rejected e) = Ok (failure_prefix @ message e)"
    by (simp add: failure_text_def)
  have p: "filter is_line_terminator failure_prefix = []"
    by (simp add: failure_prefix_def asc_def)
  show "length (filter is_line_terminator (failure_prefix @ message e))
        = length (filter is_line_terminator (message e))"
    by (simp add: p)
  show "single_line (failure_prefix @ message e) \<longleftrightarrow> single_line (message e)"
    using single_line_failure_prefix by (simp add: single_line_def)
  show "execute (Resolved data) = Ok (failure_prefix @ message x)"
    if "execute_body data = Throw x" for data x
    using that by (simp add: failure_text_def)
  show "execute u \<noteq> Throw x" for u x
    by (cases u) (simp_all split: res.splits)
qed

theorem upstream_failure_line_witness:
  "execute (Rejected (AxiosError (asc ''timeout''))) = Ok (failure_prefix @ asc ''timeout'')
   \<and> single_line (asc ''timeout'')
   \<and> single_line (failure_prefix @ asc ''timeout'')
   \<and> execute_body (response_with (JArr [JNull]))
        = Throw (TypeError (cannot_read_msg JNull (asc ''totalTime'')))
   \<and> execute (Resolved (response_with (JArr [JNull])))
        = Ok (failure_prefix @ cannot_read_msg JNull (asc ''totalTime''))"
proof -
  note all = upstream_failure_line [of "AxiosError (asc ''timeout'')"]
  have s: "single_line (asc ''timeout'')"
    by (simp add: single_line_def asc_def)
  have b: "execute_body (response_with (JArr [JNull]))
        = Throw (TypeError (cannot_read_msg JNull (asc ''totalTime'')))"
    by (simp add: tool_defs value_defs)
  from all have thrown: "\<forall>data x. execute_body data = Throw x
         \<longrightarrow> execute (Resolved data) = Ok (failure_prefix @ message x)"
    by blast
  from thrown b have "execute (Resolved (response_with (JArr [JNull])))
        = Ok (failure_prefix @ message (TypeError (cannot_read_msg JNull (asc ''totalTime''))))"
    by blast
  then have c: "execute (Resolved (response_with (JArr [JNull])))
        = Ok (failure_prefix @ cannot_read_msg JNull (asc ''totalTime''))"
    by simp
  from all s b c show ?thesis by simp
qed

text \<open>
  C9: a \<^verbatim>\<open>totalTime\<close>, \<^verbatim>\<open>totalDistance\<close> or \<^verbatim>\<open>totalWalkTime\<close> that is present and equal
  to 0 gives exactly the report of the itinerary without that field: the line is left
  out, since the source tests the value for truthiness.
\<close>

theorem zero_metric_as_absent:
  assumes "f \<in> {asc ''totalTime'', asc ''totalDistance'', asc ''totalWalkTime''}"
    and "field best f = JNum 0"
    and "field best' f = JUndefined"
    and "\<not> nullish best'"
    and "\<forall>k. k \<noteq> f \<longrightarrow> field best' k = field best k"
  shows "itinerary_report best = itinerary_report best'"
proof -
  have nn: "\<not> nullish best" using assms(2) by (auto simp: field_nullish)
  consider "f = asc ''totalTime''" | "f = asc ''totalDistance''" | "f = asc ''totalWalkTime''"
    using assms(1) by blast
  then show ?thesis
  proof cases
    case 1
    have same: "field best' k = field best k" if "k \<noteq> asc ''totalTime''" for k
      using assms(5) that 1 by simp
    show ?thesis
      using assms(2,3,4) nn unfolding 1
      by (simp add: itinerary_report_def get_def legs_of_def opt_minutes_falsy same asc_def)
  next
    case 2
    have same: "field best' k = field best k" if "k \<noteq> asc ''totalDistance''" for k
      using assms(5) that 2 by simp
    show ?thesis
      using assms(2,3,4) nn unfolding 2
      by (simp add: itinerary_report_def get_def legs_of_def opt_km_falsy same asc_def)
  next
    case 3
    have same: "field best' k = field best k" if "k \<noteq> asc ''totalWalkTime''" for k
      using assms(5) that 3 by simp
    show ?thesis
      using assms(2,3,4) nn unfolding 3
      by (simp add: itinerary_report_def get_def legs_of_def opt_minutes_falsy same asc_def)
  qed
qed

theorem zero_metric_as_absent_witness:
  "itinerary_report (obj [(''totalTime'', JNum 0), (''transferCount'', JNum 2)])
     = itinerary_report (obj [(''transferCount'', JNum 2)])
   \<and> itinerary_report (obj [(''transferCount'', JNum 2)])
     = Ok (summary_label @ nl @ transfers_label @ asc ''2'' @ times_unit @ nl @ nl
             @ detail_heading @ nl)"
proof -
  have "itinerary_report (obj [(''transferCount'', JNum 2)])
     = Ok (summary_label @ nl @ transfers_label @ asc ''2'' @ times_unit @ nl @ nl
             @ detail_heading @ nl)"
    by (simp add: tool_defs value_defs label_defs)
  moreover have "itinerary_report (obj [(''totalTime'', JNum 0), (''transferCount'', JNum 2)])
     = itinerary_report (obj [(''transferCount'', JNum 2)])"
    by (rule zero_metric_as_absent [of "asc ''totalTime''"]) (simp_all add: value_defs)
  ultimately show ?thesis by simp
qed

text \<open>
  C10: of several lanes only the first is rendered. For a transit leg of the documented
  shape the lane lines are the route line, the type line and the status line of the
  first lane, written from its \<^verbatim>\<open>route\<close>, \<^verbatim>\<open>type\<close> and \<^verbatim>\<open>service\<close>, and they
  stand in the detail of the leg between its head and its passed stations. The lanes
  after the first one do not matter: whatever they are, the lane lines and the detail
  are those of the leg that holds the first lane only. A leg whose list of lanes is
  empty has no lane lines, and the detail of the leg without the field.
\<close>

theorem only_first_lane_rendered:
  assumes "\<forall>k. k \<noteq> asc ''Lane'' \<longrightarrow> field leg' k = field leg k"
  shows "(field leg (asc ''Lane'') = JArr (lane # more) \<and> leg_ok leg
            \<and> field leg (asc ''mode'') \<noteq> JStr (asc ''WALK'')
            \<longrightarrow> (\<exists>head r t l4.
      to_string (field lane (asc ''route'')) = Ok r
    \<and> to_string (field lane (asc ''type'')) = Ok t
    \<and> stations_block leg = Ok l4
    \<and> lane_block leg =
        Ok ((if truthy (field lane (asc ''route'')) then lane_route_label @ r @ nl else [])
            @ (if truthy (field lane (asc ''type'')) then lane_type_label @ t @ nl else [])
            @ (if field lane (asc ''service'') \<noteq> JUndefined
               then service_label
                    @ (if field lane (asc ''service'') = JNum 1 then operating else ended) @ nl
               else []))
    \<and> leg_detail idx leg =
        Ok (js_trim (leg_number idx @ head
            @ ((if truthy (field lane (asc ''route'')) then lane_route_label @ r @ nl else [])
               @ (if truthy (field lane (asc ''type'')) then lane_type_label @ t @ nl else [])
               @ (if field lane (asc ''service'') \<noteq> JUndefined
                  then service_label
                       @ (if field lane (asc ''service'') = JNum 1 then operating else ended) @ nl
                  else []))
            @ l4))))
       \<and> (field leg (asc ''Lane'') = JArr (lane # more) \<and> field leg' (asc ''Lane'') = JArr [lane]
            \<longrightarrow> lane_block leg = lane_block leg' \<and> leg_detail idx leg = leg_detail idx leg')
       \<and> (field leg (asc ''Lane'') = JArr [] \<and> field leg' (asc ''Lane'') = JUndefined
            \<and> \<not> nullish leg'
            \<longrightarrow> lane_block leg = Ok [] \<and> leg_detail idx leg = leg_detail idx leg')"
proof -
  note old = later_lanes_ignored [OF assms, of lane more idx]
  have new: "\<exists>head r t l4.
      to_string (field lane (asc ''route'')) = Ok r
    \<and> to_string (field lane (asc ''type'')) = Ok t
    \<and> stations_block leg = Ok l4
    \<and> lane_block leg =
        Ok ((if truthy (field lane (asc ''route'')) then lane_route_label @ r @ nl else [])
            @ (if truthy (field lane (asc ''type'')) then lane_type_label @ t @ nl else [])
            @ (if field lane (asc ''service'') \<noteq> JUndefined
               then service_label
                    @ (if field lane (asc ''service'') = JNum 1 then operating else ended) @ nl
               else []))
    \<and> leg_detail idx leg =
        Ok (js_trim (leg_number idx @ head
            @ ((if truthy (field lane (asc ''route'')) then lane_route_label @ r @ nl else [])
               @ (if truthy (field lane (asc ''type'')) then lane_type_label @ t @ nl else [])
               @ (if field lane (asc ''service'') \<noteq> JUndefined
                  then service_label
                       @ (if field lane (asc ''service'') = JNum 1 then operating else ended) @ nl
                  else []))
            @ l4))"
    if "field leg (asc ''Lane'') = JArr (lane # more)" "leg_ok leg"
      "field leg (asc ''mode'') \<noteq> JStr (asc ''WALK'')"
    using that by (intro leg_detail_first_lane)
  from old new show ?thesis by blast
qed

theorem only_first_lane_rendered_witness:
  "leg_ok bus_leg_two_lanes
   \<and> lane_block bus_leg_two_lanes
       = Ok (lane_route_label @ asc ''146'' @ nl @ service_label @ operating @ nl)
   \<and> leg_detail 0 bus_leg_two_lanes = leg_detail 0 bus_leg_one_lane
   \<and> leg_detail 0 bus_leg_one_lane =
       Ok (asc ''[1] BUS - 5000m, '' @ about @ asc ''0'' @ minute_unit @ nl
             @ lane_route_label @ asc ''146'' @ nl @ service_label @ operating)
   \<and> lane_block bus_leg_no_lane = Ok []
   \<and> leg_detail 0 bus_leg_no_lane = leg_detail 0 bus_leg_plain
   \<and> leg_detail 0 bus_leg_plain
       = Ok (asc ''[1] BUS - 5000m, '' @ about @ asc ''0'' @ minute_unit)"
proof -
  let ?lane = "obj [(''route'', str ''146''), (''service'', JNum 1)]"
  let ?more = "[obj [(''route'', str ''360''), (''service'', JNum 0)]]"
  have a1: "\<forall>k. k \<noteq> asc ''Lane'' \<longrightarrow> field bus_leg_one_lane k = field bus_leg_two_lanes k"
    by (simp add: bus_leg_one_lane_def bus_leg_two_lanes_def value_defs)
  have a2: "\<forall>k. k \<noteq> asc ''Lane'' \<longrightarrow> field bus_leg_plain k = field bus_leg_no_lane k"
    by (simp add: bus_leg_plain_def bus_leg_no_lane_def value_defs)
  have l: "field bus_leg_two_lanes (asc ''Lane'') = JArr (?lane # ?more)"
    "field bus_leg_one_lane (asc ''Lane'') = JArr [?lane]"
    "field bus_leg_no_lane (asc ''Lane'') = JArr []"
    "field bus_leg_plain (asc ''Lane'') = JUndefined"
    "\<not> nullish bus_leg_plain"
    "field bus_leg_two_lanes (asc ''mode'') \<noteq> JStr (asc ''WALK'')"
    by (simp_all add: bus_leg_two_lanes_def bus_leg_one_lane_def bus_leg_no_lane_def
        bus_leg_plain_def value_defs)
  have f: "field ?lane (asc ''service'') = JNum 1"
    "field ?lane (asc ''route'') = JStr (asc ''146'')"
    "field ?lane (asc ''type'') = JUndefined"
    by (simp_all add: value_defs)
  note first = only_first_lane_rendered [OF a1, of ?lane ?more 0]
  from first l bus_legs_ok(2)
  obtain r t where "to_string (field ?lane (asc ''route'')) = Ok r"
    "lane_block bus_leg_two_lanes =
        Ok ((if truthy (field ?lane (asc ''route'')) then lane_route_label @ r @ nl else [])
            @ (if truthy (field ?lane (asc ''type'')) then lane_type_label @ t @ nl else [])
            @ (if field ?lane (asc ''service'') \<noteq> JUndefined
               then service_label
                    @ (if field ?lane (asc ''service'') = JNum 1 then operating else ended) @ nl
               else []))"
    by blast
  then have two: "lane_block bus_leg_two_lanes
       = Ok (lane_route_label @ asc ''146'' @ nl @ service_label @ operating @ nl)"
    unfolding f by (auto simp add: asc_def)
  from first l have same: "leg_detail 0 bus_leg_two_lanes = leg_detail 0 bus_leg_one_lane"
    by blast
  from only_first_lane_rendered [OF a2, of _ _ 0] l
  have none: "lane_block bus_leg_no_lane = Ok []"
    "leg_detail 0 bus_leg_no_lane = leg_detail 0 bus_leg_plain"
    by blast+
  from bus_legs_ok(2) two same bus_leg_one_lane_detail none bus_leg_plain_detail
  show ?thesis by blast
qed

end
